theory Spec2Isabelle
  imports Complex_Main "HOL-Library.Word"
begin

unbundle bit_operations_syntax

section \<open>Data model of lib/ws281x-native.js\<close>

text \<open>
  A pixel is an element of a \<^verbatim>\<open>Uint32Array\<close>, a byte an element of a \<^verbatim>\<open>Buffer\<close> or of
  the \<^verbatim>\<open>Uint8Array\<close> that holds the gamma table.
\<close>

type_synonym u8 = "8 word"
type_synonym u32 = "32 word"

text \<open>
  The values a caller can pass where the module inspects an argument dynamically
  (\<^verbatim>\<open>options\<close> of \<^verbatim>\<open>init\<close>, \<^verbatim>\<open>render\<close> of \<^verbatim>\<open>setBrightness\<close>). Objects are plain data
  objects: a finite list of own properties (the first entry for a name is the property), no
  accessors. Numbers are the finite ones and \<^verbatim>\<open>NaN\<close>.
\<close>

datatype jsval =
    JUndefined
  | JNull
  | JBool bool
  | JNum real
  | JNaN
  | JStr string
  | JObject "(string \<times> jsval) list"
  | JFunction

text \<open>What a call can throw.\<close>

datatype error =
    Error string   \<comment> \<open>\<^verbatim>\<open>new Error(message)\<close>\<close>
  | TypeError      \<comment> \<open>property access or method call on \<^verbatim>\<open>null\<close>\<close>
  | RangeError     \<comment> \<open>\<^verbatim>\<open>writeUInt32LE\<close> past the end of the buffer\<close>

text \<open>\<^verbatim>\<open>typeof v\<close>.\<close>

fun typeof :: "jsval \<Rightarrow> string" where
  "typeof JUndefined = ''undefined''"
| "typeof JNull = ''object''"
| "typeof (JBool b) = ''boolean''"
| "typeof (JNum x) = ''number''"
| "typeof JNaN = ''number''"
| "typeof (JStr s) = ''string''"
| "typeof (JObject ps) = ''object''"
| "typeof JFunction = ''function''"

text \<open>\<^verbatim>\<open>!!v\<close>.\<close>

fun ToBoolean :: "jsval \<Rightarrow> bool" where
  "ToBoolean JUndefined = False"
| "ToBoolean JNull = False"
| "ToBoolean (JBool b) = b"
| "ToBoolean (JNum x) = (x \<noteq> 0)"
| "ToBoolean JNaN = False"
| "ToBoolean (JStr s) = (s \<noteq> [])"
| "ToBoolean (JObject ps) = True"
| "ToBoolean JFunction = True"

text \<open>
  \<^verbatim>\<open>v.name\<close>: a \<^verbatim>\<open>TypeError\<close> on \<^verbatim>\<open>null\<close> and \<^verbatim>\<open>undefined\<close>, the own property of an
  object, \<^verbatim>\<open>undefined\<close> where there is none.
\<close>

fun get_prop :: "jsval \<Rightarrow> string \<Rightarrow> error + jsval" where
  "get_prop JUndefined name = Inl TypeError"
| "get_prop JNull name = Inl TypeError"
| "get_prop (JObject ps) name =
     (case map_of ps name of None \<Rightarrow> Inr JUndefined | Some v \<Rightarrow> Inr v)"
| "get_prop v name = Inr JUndefined"

text \<open>
  \<^verbatim>\<open>a === b\<close>, for the comparisons the module makes: one side is a primitive constant
  (an entry of \<^verbatim>\<open>STRIP_TYPES\<close>, or \<^verbatim>\<open>false\<close>), so an object or a function is never equal
  to it; \<^verbatim>\<open>NaN\<close> is equal to nothing.
\<close>

fun strict_eq :: "jsval \<Rightarrow> jsval \<Rightarrow> bool" where
  "strict_eq JNaN b = False"
| "strict_eq a JNaN = False"
| "strict_eq (JObject ps) b = False"
| "strict_eq a (JObject ps) = False"
| "strict_eq JFunction b = False"
| "strict_eq a JFunction = False"
| "strict_eq a b = (a = b)"

text \<open>
  What the module does to the outside: the calls of the native binding and the events it
  emits, in order. A call that hands over the output buffer records the buffer's contents
  at that moment (\<open>None\<close> for \<^verbatim>\<open>null\<close>).
\<close>

datatype event =
    BindingsInit nat jsval
  | BindingsRender "u8 list option"
  | BindingsSetBrightness int
  | BindingsReset
  | Emit string "u32 list"

text \<open>
  The module-level variables \<^verbatim>\<open>_isInitialized\<close>, \<^verbatim>\<open>_indexMapping\<close>, \<^verbatim>\<open>_outputBuffer\<close>,
  \<^verbatim>\<open>_useGammaCorrection\<close> and \<^verbatim>\<open>_rgbToRgbw\<close> (\<open>None\<close> is \<^verbatim>\<open>null\<close>; the fields carry
  the prefix \<open>m\<close> in place of the underscore), and the trace of outside effects so far.
\<close>

record state =
  m_isInitialized :: bool
  m_indexMapping :: "int list option"
  m_outputBuffer :: "u8 list option"
  m_useGammaCorrection :: "bool option"
  m_rgbToRgbw :: "bool option"
  trace :: "event list"

definition initial_state :: state where
  "initial_state =
     \<lparr>m_isInitialized = False, m_indexMapping = None, m_outputBuffer = None,
      m_useGammaCorrection = None, m_rgbToRgbw = None, trace = []\<rparr>"

definition emit :: "event \<Rightarrow> state \<Rightarrow> state" where
  "emit e s = s\<lparr>trace := trace s @ [e]\<rparr>"

section \<open>The gamma table\<close>

text \<open>
  \<^verbatim>\<open>
  var _gamma = 1 / 0.45;
  for (var i = 0; i < 256; i++) {
      _gammaTable[i] = Math.floor(Math.pow(i / 255, _gamma) * 255 + 0.5);
  }
  \<close>
  \<^verbatim>\<open>Math.pow\<close> is an implementation-approximated function of the language; it is read here
  as the real power, and \<open>gamma_margin\<close> below shows that every entry stays the same for
  any approximation that is off by less than \<open>1 / 1024\<close>. The store into the
  \<^verbatim>\<open>Uint8Array\<close> keeps the low eight bits.
\<close>

definition gamma_value :: "nat \<Rightarrow> real" where
  "gamma_value i = (real i / 255) powr (1 / 0.45) * 255 + 0.5"

definition gammaTable :: "u8 list" where
  "gammaTable = map (\<lambda>i. word_of_int \<lfloor>gamma_value i\<rfloor>) [0..<256]"

text \<open>
  \<^verbatim>\<open>
  function gammaCorrect(color) {
      return ((_gammaTable[color & 0xff]
          | (_gammaTable[(color >> 8) & 0xff] << 8)
          | (_gammaTable[(color >> 16) & 0xff] << 16)
          | (_gammaTable[(color >> 24) & 0xff] << 24)) >>> 0);
  }
  \<close>
  \<^verbatim>\<open>>>\<close> is the sign-propagating shift of the 32-bit value.
\<close>

definition gammaCorrect :: "u32 \<Rightarrow> u32" where
  "gammaCorrect color =
     ucast (gammaTable ! unat (color AND 0xff))
     OR push_bit 8 (ucast (gammaTable ! unat (signed_drop_bit 8 color AND 0xff)))
     OR push_bit 16 (ucast (gammaTable ! unat (signed_drop_bit 16 color AND 0xff)))
     OR push_bit 24 (ucast (gammaTable ! unat (signed_drop_bit 24 color AND 0xff)))"

section \<open>Index remapping\<close>

text \<open>
  \<^verbatim>\<open>
  function remap(data, indexMapping) {
      _tmpData = Uint32Array.from(data);
      for (var i = 0; i < data.length; i++) {
          data[i] = _tmpData[indexMapping[i]];
      }
  }
  \<close>
  A read outside \<^verbatim>\<open>indexMapping\<close> or outside \<^verbatim>\<open>_tmpData\<close> is \<^verbatim>\<open>undefined\<close>, which the
  typed array stores as 0.
\<close>

definition tmp_read :: "u32 list \<Rightarrow> int list \<Rightarrow> nat \<Rightarrow> u32" where
  "tmp_read tmpData indexMapping i =
     (if i < length indexMapping \<and> 0 \<le> indexMapping ! i \<and> nat (indexMapping ! i) < length tmpData
      then tmpData ! nat (indexMapping ! i) else 0)"

definition remap :: "u32 list \<Rightarrow> int list \<Rightarrow> u32 list" where
  "remap data indexMapping =
     (let tmpData = data
      in fold (\<lambda>i d. d[i := tmp_read tmpData indexMapping i]) [0..<length data] data)"

section \<open>Frame encoding\<close>

text \<open>
  \<^verbatim>\<open>buf.writeUInt32LE(value, offset)\<close>: four bytes, least significant first; a
  \<^verbatim>\<open>RangeError\<close> when they do not fit.
\<close>

definition writeUInt32LE :: "u8 list \<Rightarrow> u32 \<Rightarrow> nat \<Rightarrow> error + u8 list" where
  "writeUInt32LE buf v off =
     (if off + 4 \<le> length buf
      then Inr (buf[off := ucast v, off + 1 := ucast (drop_bit 8 v),
                    off + 2 := ucast (drop_bit 16 v), off + 3 := ucast (drop_bit 24 v)])
      else Inl RangeError)"

text \<open>
  \<^verbatim>\<open>
  for (var i = 0; i < data.length; i++) {
      _outputBuffer.writeUInt32LE(data[i], 4 * i);
  }
  \<close>
  from index \<open>i\<close> on, over the pixels not yet written. A throw leaves the buffer as
  written so far.
\<close>

fun encode_from :: "nat \<Rightarrow> u32 list \<Rightarrow> u8 list \<Rightarrow> error option \<times> u8 list" where
  "encode_from i [] buf = (None, buf)"
| "encode_from i (x # xs) buf =
     (case writeUInt32LE buf x (4 * i) of
        Inl e \<Rightarrow> (Some e, buf)
      | Inr buf' \<Rightarrow> encode_from (Suc i) xs buf')"

text \<open>The loop on \<^verbatim>\<open>_outputBuffer\<close>, which is \<^verbatim>\<open>null\<close> outside an initialised period.\<close>

definition encode :: "u32 list \<Rightarrow> u8 list option \<Rightarrow> error option \<times> u8 list option" where
  "encode data ob =
     (case ob of
        None \<Rightarrow> (if data = [] then (None, None) else (Some TypeError, None))
      | Some buf \<Rightarrow> (case encode_from 0 data buf of (e, buf') \<Rightarrow> (e, Some buf')))"

section \<open>Numbers\<close>

text \<open>
  The arithmetic of \<^verbatim>\<open>rgbToRgbw\<close> is on IEEE 754 double-precision numbers: each of
  \<^verbatim>\<open>+\<close>, \<^verbatim>\<open>-\<close>, \<^verbatim>\<open>*\<close>, \<^verbatim>\<open>/\<close> returns the exact result rounded to the nearest double, ties
  to the even significand. \<open>fl\<close> is that rounding: 53 significant bits, gradual underflow
  below \<open>2 powi -1022\<close>. \<open>binade x\<close> is the exponent \<open>e\<close> with \<open>2 powi e \<le> x < 2 powi (e + 1)\<close>
  of a positive \<open>x\<close>, found by halving or doubling. Overflow to infinity is not modelled;
  the operands here are below 1024 in magnitude.
\<close>

definition rne :: "real \<Rightarrow> int" where
  "rne y =
     (let f = \<lfloor>y\<rfloor>; r = y - of_int f
      in if r < 1 / 2 then f else if 1 / 2 < r then f + 1 else if even f then f else f + 1)"

lemma floor_half_less:
  fixes y :: real
  assumes "1 \<le> y"
  shows "\<lfloor>y / 2\<rfloor> < \<lfloor>y\<rfloor>"
proof -
  have pos: "0 < \<lfloor>y\<rfloor>" using assms by linarith
  have "y < of_int \<lfloor>y\<rfloor> + 1" by linarith
  then have "y / 2 < (of_int \<lfloor>y\<rfloor> + 1) / 2" by simp
  moreover have "of_int \<lfloor>y / 2\<rfloor> \<le> y / 2" by (rule of_int_floor_le)
  ultimately have "of_int \<lfloor>y / 2\<rfloor> < (of_int \<lfloor>y\<rfloor> + 1) / (2::real)" by linarith
  then have "of_int (2 * \<lfloor>y / 2\<rfloor>) < (of_int (\<lfloor>y\<rfloor> + 1) :: real)" by simp
  then have "2 * \<lfloor>y / 2\<rfloor> < \<lfloor>y\<rfloor> + 1" by (simp only: of_int_less_iff)
  with pos show ?thesis by linarith
qed

function exp_up :: "real \<Rightarrow> int" where
  "exp_up x = (if 2 \<le> x then exp_up (x / 2) + 1 else 0)"
  by pat_completeness auto
termination
proof (relation "measure (\<lambda>x. nat \<lfloor>x\<rfloor>)")
  show "wf (measure (\<lambda>x::real. nat \<lfloor>x\<rfloor>))" by simp
next
  fix x :: real
  assume "2 \<le> x"
  then have "\<lfloor>x / 2\<rfloor> < \<lfloor>x\<rfloor>" and "0 < \<lfloor>x\<rfloor>"
    using floor_half_less [of x] by linarith+
  then show "(x / 2, x) \<in> measure (\<lambda>x. nat \<lfloor>x\<rfloor>)" by simp
qed

function exp_down :: "real \<Rightarrow> int" where
  "exp_down x = (if 0 < x \<and> x < 1 then exp_down (2 * x) - 1 else 0)"
  by pat_completeness auto
termination
proof (relation "measure (\<lambda>x. nat \<lfloor>1 / x\<rfloor>)")
  show "wf (measure (\<lambda>x::real. nat \<lfloor>1 / x\<rfloor>))" by simp
next
  fix x :: real
  assume x: "0 < x \<and> x < 1"
  then have "1 \<le> 1 / x" by simp
  then have "\<lfloor>1 / x / 2\<rfloor> < \<lfloor>1 / x\<rfloor>" and "0 < \<lfloor>1 / x\<rfloor>"
    using floor_half_less [of "1 / x"] by linarith+
  moreover have "1 / (2 * x) = 1 / x / 2" by simp
  ultimately show "(2 * x, x) \<in> measure (\<lambda>x. nat \<lfloor>1 / x\<rfloor>)"
    by (simp add: mult.commute)
qed

declare exp_up.simps [simp del] exp_down.simps [simp del]

definition binade :: "real \<Rightarrow> int" where
  "binade x = (if 1 \<le> x then exp_up x else exp_down x)"

definition ulp_exp :: "real \<Rightarrow> int" where
  "ulp_exp x = max (binade \<bar>x\<bar>) (- 1022) - 52"

definition fl :: "real \<Rightarrow> real" where
  "fl x = (if x = 0 then 0 else of_int (rne (x / 2 powi ulp_exp x)) * 2 powi ulp_exp x)"

text \<open>
  \<^verbatim>\<open>~~x\<close>: the number truncated towards zero, then taken as a signed 32-bit integer.
\<close>

definition trunc :: "real \<Rightarrow> int" where
  "trunc x = (if 0 \<le> x then \<lfloor>x\<rfloor> else \<lceil>x\<rceil>)"

definition ToInt32 :: "real \<Rightarrow> int" where
  "ToInt32 x = sint (word_of_int (trunc x) :: u32)"

section \<open>RGB to RGBW\<close>

text \<open>
  The body of the loop of \<^verbatim>\<open>rgbToRgbw\<close> for one pixel:
  \<^verbatim>\<open>
  let pixelIn = data[i];
  let rIn = (pixelIn >> 16) & 0xff;
  let gIn = (pixelIn >> 8) & 0xff;
  let bIn = pixelIn & 0xff;
  let tMax = Math.max(rIn, gIn, bIn);
  if (tMax === 0) continue;
  let multiplier = 255 / tMax;
  let rHue = rIn * multiplier;
  let gHue = gIn * multiplier;
  let bHue = bIn * multiplier;
  let whiteness = ~~(((Math.max(rHue, gHue, bHue)
      + Math.min(rHue, gHue, bHue)) / 2 - 127.5)
      * 2 / multiplier);
  data[i] = ((whiteness << 24) | (rIn - whiteness) << 16 | (gIn - whiteness) << 8
      | (bIn - whiteness)) >>> 0;
  \<close>
  \<open>whiteness_value\<close> is the number that \<^verbatim>\<open>~~\<close> is applied to.
\<close>

definition whiteness_value :: "int \<Rightarrow> int \<Rightarrow> int \<Rightarrow> real" where
  "whiteness_value rIn gIn bIn =
     (let tMax = max rIn (max gIn bIn);
          multiplier = fl (255 / of_int tMax);
          rHue = fl (of_int rIn * multiplier);
          gHue = fl (of_int gIn * multiplier);
          bHue = fl (of_int bIn * multiplier)
      in fl (fl (fl (fl (fl (max rHue (max gHue bHue) + min rHue (min gHue bHue)) / 2)
                     - 127.5) * 2) / multiplier))"

definition rgbToRgbw_pixel :: "u32 \<Rightarrow> u32" where
  "rgbToRgbw_pixel pixelIn =
     (let rIn = uint (signed_drop_bit 16 pixelIn AND 0xff);
          gIn = uint (signed_drop_bit 8 pixelIn AND 0xff);
          bIn = uint (pixelIn AND 0xff);
          tMax = max rIn (max gIn bIn)
      in if tMax = 0 then pixelIn
         else
           let whiteness = ToInt32 (whiteness_value rIn gIn bIn)
           in push_bit 24 (word_of_int whiteness)
              OR push_bit 16 (word_of_int (rIn - whiteness))
              OR push_bit 8 (word_of_int (gIn - whiteness))
              OR word_of_int (bIn - whiteness))"

text \<open>\<^verbatim>\<open>for (var i = 0; i < data.length; i++) { ... }\<close>, in place.\<close>

definition rgbToRgbw :: "u32 list \<Rightarrow> u32 list" where
  "rgbToRgbw data = fold (\<lambda>i d. d[i := rgbToRgbw_pixel (d ! i)]) [0..<length data] data"

section \<open>The exported operations\<close>

text \<open>
  \<^verbatim>\<open>new Buffer(size)\<close> returns memory that is not cleared: \<open>mem\<close> is what it holds.
\<close>

definition new_Buffer :: "(nat \<Rightarrow> u8) \<Rightarrow> nat \<Rightarrow> u8 list" where
  "new_Buffer mem n = map mem [0..<n]"

text \<open>
  \<^verbatim>\<open>
  ws281x.init = function (numLeds, options) {
      if (typeof options !== 'object') options = {};
      _isInitialized = true;
      _outputBuffer = new Buffer(4 * numLeds);
      _useGammaCorrection = !!options.gammaCorrection;
      _rgbToRgbw = !!options.rgbToRgbw && options.strip_type === ws281x.STRIP_TYPES.SK6812W;
      bindings.init(numLeds, options);
  };
  \<close>
  \<open>SK6812W\<close> is the entry \<^verbatim>\<open>STRIP_TYPES.SK6812W\<close> of the native binding (\<^verbatim>\<open>undefined\<close> with
  the stub binding), \<open>numLeds\<close> a count for which the allocation succeeds. The result is
  what the call throws, if anything, and the variables as the call leaves them.
  \<open>rgbToRgbw_option\<close> is the right-hand side of the assignment to \<^verbatim>\<open>_rgbToRgbw\<close>.
\<close>

definition rgbToRgbw_option :: "jsval \<Rightarrow> jsval \<Rightarrow> error + bool" where
  "rgbToRgbw_option SK6812W options =
     (case get_prop options ''rgbToRgbw'' of
        Inl e \<Rightarrow> Inl e
      | Inr v \<Rightarrow>
          (if ToBoolean v
           then (case get_prop options ''strip_type'' of
                   Inl e \<Rightarrow> Inl e
                 | Inr strip_type \<Rightarrow> Inr (strict_eq strip_type SK6812W))
           else Inr False))"

definition init :: "jsval \<Rightarrow> (nat \<Rightarrow> u8) \<Rightarrow> state \<Rightarrow> nat \<Rightarrow> jsval \<Rightarrow> error option \<times> state" where
  "init SK6812W mem s numLeds options0 =
     (let options = (if typeof options0 \<noteq> ''object'' then JObject [] else options0);
          s1 = s\<lparr>m_isInitialized := True\<rparr>;
          s2 = s1\<lparr>m_outputBuffer := Some (new_Buffer mem (4 * numLeds))\<rparr>
      in (case get_prop options ''gammaCorrection'' of
            Inl e \<Rightarrow> (Some e, s2)
          | Inr gammaCorrection \<Rightarrow>
              (let s3 = s2\<lparr>m_useGammaCorrection := Some (ToBoolean gammaCorrection)\<rparr>
               in (case rgbToRgbw_option SK6812W options of
                     Inl e \<Rightarrow> (Some e, s3)
                   | Inr b \<Rightarrow>
                       (None, emit (BindingsInit numLeds options) (s3\<lparr>m_rgbToRgbw := Some b\<rparr>))))))"

text \<open>\<^verbatim>\<open>ws281x.setIndexMapping = function (mapping) { _indexMapping = mapping; };\<close>\<close>

definition setIndexMapping :: "state \<Rightarrow> int list option \<Rightarrow> state" where
  "setIndexMapping s mapping = s\<lparr>m_indexMapping := mapping\<rparr>"

text \<open>
  \<^verbatim>\<open>
  ws281x.render = function (data) {
      if (!_isInitialized) {
          throw new Error('render called before initialization.');
      }
      this.emit('beforeRender', data);
      if (_indexMapping) { remap(data, _indexMapping); }
      if (_rgbToRgbw) { rgbToRgbw(data); }
      if (_useGammaCorrection) { data.map(gammaCorrect); }
      for (var i = 0; i < data.length; i++) {
          _outputBuffer.writeUInt32LE(data[i], 4 * i);
      }
      bindings.render(_outputBuffer);
      this.emit('render', data);
      return data;
  };
  \<close>
  \<^verbatim>\<open>data.map(f)\<close> builds a new array of the values \<^verbatim>\<open>f(data[i])\<close> and leaves \<^verbatim>\<open>data\<close> as it
  is; \<^verbatim>\<open>render\<close> drops that array (\<open>mapped\<close> below). The result is what the call returns
  or throws, the variables, and the caller's array, as the call leaves them.
\<close>

definition render :: "state \<Rightarrow> u32 list \<Rightarrow> (error + u32 list) \<times> state \<times> u32 list" where
  "render s data =
     (if \<not> m_isInitialized s
      then (Inl (Error ''render called before initialization.''), s, data)
      else
        let s1 = emit (Emit ''beforeRender'' data) s;
            data1 = (case m_indexMapping s1 of
                       Some indexMapping \<Rightarrow> remap data indexMapping
                     | None \<Rightarrow> data);
            data2 = (if m_rgbToRgbw s1 = Some True then rgbToRgbw data1 else data1);
            mapped = (if m_useGammaCorrection s1 = Some True then map gammaCorrect data2 else []);
            (e, ob) = encode data2 (m_outputBuffer s1);
            s2 = s1\<lparr>m_outputBuffer := ob\<rparr>
        in (case e of
              Some err \<Rightarrow> (Inl err, s2, data2)
            | None \<Rightarrow>
                (Inr data2, emit (Emit ''render'' data2) (emit (BindingsRender ob) s2), data2)))"

text \<open>
  \<^verbatim>\<open>
  ws281x.setBrightness = function (brightness, render) {
      if (!_isInitialized) {
          throw new Error('setBrightness called before initialization.');
      }
      if (_useGammaCorrection) {
          brightness = _gammaTable[brightness & 0xff];
      }
      bindings.setBrightness(brightness);
      if (render !== false) {
          bindings.render(_outputBuffer);
      }
  };
  \<close>
  \<open>brightness\<close> is an integer; \<^verbatim>\<open>brightness & 0xff\<close> is its residue modulo 256.
\<close>

definition setBrightness :: "state \<Rightarrow> int \<Rightarrow> jsval \<Rightarrow> error option \<times> state" where
  "setBrightness s brightness0 render_arg =
     (if \<not> m_isInitialized s
      then (Some (Error ''setBrightness called before initialization.''), s)
      else
        let brightness = (if m_useGammaCorrection s = Some True
                          then uint (gammaTable ! nat (brightness0 mod 256))
                          else brightness0);
            s1 = emit (BindingsSetBrightness brightness) s
        in if \<not> strict_eq render_arg (JBool False)
           then (None, emit (BindingsRender (m_outputBuffer s1)) s1)
           else (None, s1))"

text \<open>
  \<^verbatim>\<open>
  ws281x.reset = function () {
      _isInitialized = false;
      _outputBuffer = null;
      bindings.reset();
  };
  \<close>
\<close>

definition reset :: "state \<Rightarrow> state" where
  "reset s = emit BindingsReset (s\<lparr>m_isInitialized := False, m_outputBuffer := None\<rparr>)"

section \<open>Notions for the statements\<close>

text \<open>The four bytes of a pixel word, least significant first.\<close>

definition bytesLE :: "u32 \<Rightarrow> u8 list" where
  "bytesLE v = [ucast v, ucast (drop_bit 8 v), ucast (drop_bit 16 v), ucast (drop_bit 24 v)]"

text \<open>Byte \<open>k\<close> of a pixel word, byte 0 the least significant, as a number.\<close>

definition byte_of :: "nat \<Rightarrow> u32 \<Rightarrow> int" where
  "byte_of k x = uint (ucast (drop_bit (8 * k) x) :: u8)"

text \<open>
  What \<^verbatim>\<open>render\<close> makes of the caller's array before it encodes it: the remapping when a
  mapping is registered, then the conversion when \<^verbatim>\<open>_rgbToRgbw\<close> is set.
\<close>

definition pipeline :: "state \<Rightarrow> u32 list \<Rightarrow> u32 list" where
  "pipeline s data =
     (let data1 = (case m_indexMapping s of Some m \<Rightarrow> remap data m | None \<Rightarrow> data)
      in if m_rgbToRgbw s = Some True then rgbToRgbw data1 else data1)"

text \<open>
  The value of a named option of the \<^verbatim>\<open>options\<close> argument as the caller passed it
  (\<^verbatim>\<open>undefined\<close> when \<^verbatim>\<open>options\<close> is no object or has no such property), and the object
  \<^verbatim>\<open>init\<close> works with after its \<^verbatim>\<open>typeof\<close> test.
\<close>

definition option_value :: "jsval \<Rightarrow> string \<Rightarrow> jsval" where
  "option_value options name =
     (case options of
        JObject ps \<Rightarrow> (case map_of ps name of Some v \<Rightarrow> v | None \<Rightarrow> JUndefined)
      | _ \<Rightarrow> JUndefined)"

definition effective_options :: "jsval \<Rightarrow> jsval" where
  "effective_options options = (case options of JObject ps \<Rightarrow> JObject ps | _ \<Rightarrow> JObject [])"

text \<open>
  Sequences of calls of the exported operations other than \<^verbatim>\<open>setIndexMapping\<close>, and the
  variables after them (a call that throws leaves them as they were at the throw).
\<close>

datatype call =
    Init nat jsval
  | Render "u32 list"
  | SetBrightness int jsval
  | Reset

fun do_call :: "jsval \<Rightarrow> (nat \<Rightarrow> u8) \<Rightarrow> state \<Rightarrow> call \<Rightarrow> state" where
  "do_call SK6812W mem s (Init numLeds options) = snd (init SK6812W mem s numLeds options)"
| "do_call SK6812W mem s (Render data) = fst (snd (render s data))"
| "do_call SK6812W mem s (SetBrightness b r) = snd (setBrightness s b r)"
| "do_call SK6812W mem s Reset = reset s"

definition run :: "jsval \<Rightarrow> (nat \<Rightarrow> u8) \<Rightarrow> state \<Rightarrow> call list \<Rightarrow> state" where
  "run SK6812W mem s calls = foldl (do_call SK6812W mem) s calls"

text \<open>
  The 256 values the loop stores, in rows of 32, and a test in integer arithmetic that the real
  \<open>gamma_value i\<close> lies between \<open>k + 1 / 1024\<close> and \<open>k + 1023 / 1024\<close>: for positive
  \<open>x\<close> and \<open>y\<close>, \<open>y \<le> x powr (20 / 9)\<close> is \<open>y ^ 9 \<le> x ^ 20\<close>.
\<close>

definition gamma_values :: "int list" where
  "gamma_values =
     [0, 0, 0, 0, 0, 0, 0, 0, 0, 0, 0, 0, 0, 0, 0, 0,
      1, 1, 1, 1, 1, 1, 1, 1, 1, 1, 2, 2, 2, 2, 2, 2]
     @ [3, 3, 3, 3, 3, 3, 4, 4, 4, 4, 5, 5, 5, 5, 6, 6,
      6, 7, 7, 7, 7, 8, 8, 8, 9, 9, 9, 10, 10, 11, 11, 11]
     @ [12, 12, 13, 13, 14, 14, 14, 15, 15, 16, 16, 17, 17, 18, 18, 19,
      19, 20, 20, 21, 22, 22, 23, 23, 24, 25, 25, 26, 26, 27, 28, 28]
     @ [29, 30, 30, 31, 32, 33, 33, 34, 35, 35, 36, 37, 38, 39, 39, 40,
      41, 42, 43, 43, 44, 45, 46, 47, 48, 49, 50, 50, 51, 52, 53, 54]
     @ [55, 56, 57, 58, 59, 60, 61, 62, 63, 64, 65, 66, 67, 68, 69, 71,
      72, 73, 74, 75, 76, 77, 78, 80, 81, 82, 83, 84, 86, 87, 88, 89]
     @ [91, 92, 93, 94, 96, 97, 98, 100, 101, 102, 104, 105, 106, 108, 109, 110,
      112, 113, 115, 116, 118, 119, 121, 122, 123, 125, 126, 128, 130, 131, 133, 134]
     @ [136, 137, 139, 140, 142, 144, 145, 147, 149, 150, 152, 154, 155, 157, 159, 160,
      162, 164, 166, 167, 169, 171, 173, 175, 176, 178, 180, 182, 184, 186, 187, 189]
     @ [191, 193, 195, 197, 199, 201, 203, 205, 207, 209, 211, 213, 215, 217, 219, 221,
      223, 225, 227, 229, 231, 233, 235, 238, 240, 242, 244, 246, 248, 251, 253, 255]"

definition gamma_check :: "nat \<Rightarrow> int \<Rightarrow> bool" where
  "gamma_check i k =
     (if i = 0 then k = 0
      else 0 \<le> k
        \<and> (1024 * k - 511) ^ 9 * 255 ^ 11 \<le> int i ^ 20 * 2 ^ 90
        \<and> int i ^ 20 * 2 ^ 90 \<le> (1024 * k + 511) ^ 9 * 255 ^ 11)"

fun check_from :: "nat \<Rightarrow> int list \<Rightarrow> bool" where
  "check_from i [] = True"
| "check_from i (k # ks) = (gamma_check i k \<and> check_from (i + 1) ks)"

section \<open>The loops in closed form\<close>

lemma fold_update_const:
  "n \<le> length xs \<Longrightarrow> fold (\<lambda>i d. d[i := f i]) [0..<n] xs = map f [0..<n] @ drop n xs"
proof (induction n)
  case 0
  then show ?case by simp
next
  case (Suc n)
  then have n: "n < length xs" by simp
  have "(map f [0..<n] @ drop n xs)[n := f n] = map f [0..<n] @ (drop n xs)[0 := f n]"
    by (simp add: list_update_append)
  also have "(drop n xs)[0 := f n] = f n # drop (Suc n) xs"
    using n by (simp add: Cons_nth_drop_Suc [symmetric])
  finally show ?case using Suc n by simp
qed

lemma remap_eq: "remap data m = map (tmp_read data m) [0..<length data]"
  by (simp add: remap_def fold_update_const)

lemma fold_update_self:
  "n \<le> length xs \<Longrightarrow>
   fold (\<lambda>i d. d[i := g (d ! i)]) [0..<n] xs = map g (take n xs) @ drop n xs"
proof (induction n)
  case 0
  then show ?case by simp
next
  case (Suc n)
  then have n: "n < length xs" by simp
  have "(map g (take n xs) @ drop n xs)[n := g ((map g (take n xs) @ drop n xs) ! n)]
      = map g (take n xs) @ (drop n xs)[0 := g (xs ! n)]"
    using n by (simp add: list_update_append nth_append)
  also have "(drop n xs)[0 := g (xs ! n)] = g (xs ! n) # drop (Suc n) xs"
    using n by (simp add: Cons_nth_drop_Suc [symmetric])
  finally show ?case using Suc n by (simp add: take_Suc_conv_app_nth)
qed

lemma rgbToRgbw_eq: "rgbToRgbw data = map rgbToRgbw_pixel data"
  by (simp add: rgbToRgbw_def fold_update_self)

lemma length_bytesLE: "length (bytesLE v) = 4"
  by (simp add: bytesLE_def)

lemma writeUInt32LE_eq:
  "off + 4 \<le> length buf \<Longrightarrow>
   writeUInt32LE buf v off = Inr (take off buf @ bytesLE v @ drop (off + 4) buf)"
  apply (simp add: writeUInt32LE_def bytesLE_def)
  apply (rule nth_equalityI)
   apply simp
  apply (auto simp: nth_append nth_list_update less_Suc_eq)
  done

lemma writeUInt32LE_range: "writeUInt32LE buf v off = Inl e \<Longrightarrow> e = RangeError"
  by (simp add: writeUInt32LE_def split: if_splits)

lemma length_concat_bytesLE: "length (concat (map bytesLE xs)) = 4 * length xs"
  by (induction xs) (simp_all add: length_bytesLE)

lemma encode_from_fits:
  "4 * (i + length data) \<le> length buf \<Longrightarrow>
   encode_from i data buf =
     (None, take (4 * i) buf @ concat (map bytesLE data) @ drop (4 * (i + length data)) buf)"
proof (induction data arbitrary: i buf)
  case Nil
  then show ?case by simp
next
  case (Cons x xs)
  let ?buf' = "take (4 * i) buf @ bytesLE x @ drop (4 * i + 4) buf"
  have w: "writeUInt32LE buf x (4 * i) = Inr ?buf'"
    using Cons.prems by (intro writeUInt32LE_eq) simp
  have len: "length ?buf' = length buf"
    using Cons.prems by (simp add: length_bytesLE)
  have "encode_from (Suc i) xs ?buf' =
      (None, take (4 * Suc i) ?buf' @ concat (map bytesLE xs) @ drop (4 * (Suc i + length xs)) ?buf')"
    using Cons.prems len by (intro Cons.IH) simp
  moreover have "take (4 * Suc i) ?buf' = take (4 * i) buf @ bytesLE x"
    using Cons.prems by (simp add: length_bytesLE)
  moreover have "drop (4 * (Suc i + length xs)) ?buf' = drop (4 * (i + length (x # xs))) buf"
    using Cons.prems by (simp add: length_bytesLE ac_simps)
  ultimately show ?case using w by simp
qed

lemma encode_from_error: "encode_from i data buf = (Some e, buf') \<Longrightarrow> e = RangeError"
proof (induction data arbitrary: i buf)
  case Nil
  then show ?case by simp
next
  case (Cons x xs)
  then show ?case
    by (auto split: sum.splits dest: writeUInt32LE_range)
qed

lemma encode_exact:
  "length buf = 4 * length data \<Longrightarrow>
   encode data (Some buf) = (None, Some (concat (map bytesLE data)))"
  by (simp add: encode_def encode_from_fits)

lemma encode_error:
  "encode data ob = (Some e, ob') \<Longrightarrow> e = RangeError \<or> e = TypeError"
  by (auto simp: encode_def split: option.splits if_splits prod.splits dest: encode_from_error)

lemma remap_length: "length (remap data m) = length data"
  by (simp add: remap_eq)

lemma remap_nth: "i < length data \<Longrightarrow> remap data m ! i = tmp_read data m i"
  by (simp add: remap_eq)

lemma nth_concat_bytesLE:
  "i < length d \<Longrightarrow> k < 4 \<Longrightarrow> concat (map bytesLE d) ! (4 * i + k) = bytesLE (d ! i) ! k"
proof (induction d arbitrary: i)
  case Nil
  then show ?case by simp
next
  case (Cons x xs)
  show ?case
  proof (cases i)
    case 0
    with Cons.prems show ?thesis by (simp add: nth_append length_bytesLE)
  next
    case (Suc i')
    with Cons.prems have "concat (map bytesLE xs) ! (4 * i' + k) = bytesLE (xs ! i') ! k"
      by (intro Cons.IH) simp_all
    with Suc show ?thesis by (simp add: nth_append length_bytesLE)
  qed
qed

section \<open>The operations unfolded\<close>

lemma length_pipeline: "length (pipeline s data) = length data"
  by (simp add: pipeline_def Let_def rgbToRgbw_eq remap_length split: option.splits)

lemma render_uninitialized:
  "\<not> m_isInitialized s \<Longrightarrow>
   render s data = (Inl (Error ''render called before initialization.''), s, data)"
  by (simp add: render_def)

lemma render_unfold:
  "m_isInitialized s \<Longrightarrow>
   render s data =
     (case encode (pipeline s data) (m_outputBuffer s) of
        (Some err, ob) \<Rightarrow>
          (Inl err,
           s\<lparr>m_outputBuffer := ob, trace := trace s @ [Emit ''beforeRender'' data]\<rparr>,
           pipeline s data)
      | (None, ob) \<Rightarrow>
          (Inr (pipeline s data),
           s\<lparr>m_outputBuffer := ob,
             trace := trace s @ [Emit ''beforeRender'' data, BindingsRender ob,
                                 Emit ''render'' (pipeline s data)]\<rparr>,
           pipeline s data))"
  by (simp add: render_def pipeline_def Let_def emit_def split: prod.splits option.splits)

lemma render_data: "m_isInitialized s \<Longrightarrow> snd (snd (render s data)) = pipeline s data"
  by (simp add: render_unfold split: prod.splits option.splits)

lemma render_error:
  "m_isInitialized s \<Longrightarrow> fst (render s data) = Inl e \<Longrightarrow> e = RangeError \<or> e = TypeError"
  by (auto simp: render_unfold split: prod.splits option.splits dest: encode_error)

lemma render_fits:
  assumes "m_isInitialized s" and "m_outputBuffer s = Some buf" and "length buf = 4 * length data"
  shows "render s data =
     (Inr (pipeline s data),
      s\<lparr>m_outputBuffer := Some (concat (map bytesLE (pipeline s data))),
        trace := trace s @ [Emit ''beforeRender'' data,
                            BindingsRender (Some (concat (map bytesLE (pipeline s data)))),
                            Emit ''render'' (pipeline s data)]\<rparr>,
      pipeline s data)"
proof -
  have "encode (pipeline s data) (Some buf) = (None, Some (concat (map bytesLE (pipeline s data))))"
    using assms by (intro encode_exact) (simp add: length_pipeline)
  then show ?thesis
    using assms by (simp add: render_unfold)
qed

lemma typeof_object: "typeof v = ''object'' \<longleftrightarrow> v = JNull \<or> (\<exists>ps. v = JObject ps)"
  by (cases v) simp_all

lemma init_ok:
  assumes "options \<noteq> JNull"
  shows "init SK6812W mem s numLeds options =
     (None,
      s\<lparr>m_isInitialized := True,
        m_outputBuffer := Some (new_Buffer mem (4 * numLeds)),
        m_useGammaCorrection := Some (ToBoolean (option_value options ''gammaCorrection'')),
        m_rgbToRgbw := Some (ToBoolean (option_value options ''rgbToRgbw'')
                             \<and> strict_eq (option_value options ''strip_type'') SK6812W),
        trace := trace s @ [BindingsInit numLeds (effective_options options)]\<rparr>)"
  using assms
  by (cases options)
    (simp_all add: init_def rgbToRgbw_option_def option_value_def effective_options_def emit_def
      Let_def split: option.splits)

lemma init_null:
  "init SK6812W mem s numLeds JNull =
     (Some TypeError,
      s\<lparr>m_isInitialized := True, m_outputBuffer := Some (new_Buffer mem (4 * numLeds))\<rparr>)"
  by (simp add: init_def Let_def)

lemma init_initialized: "m_isInitialized (snd (init SK6812W mem s numLeds options))"
  by (cases "options = JNull") (simp_all add: init_ok init_null)

lemma init_mapping:
  "m_indexMapping (snd (init SK6812W mem s numLeds options)) = m_indexMapping s"
  by (cases "options = JNull") (simp_all add: init_ok init_null)


lemma reset_fields:
  "m_isInitialized (reset s) = False" "m_outputBuffer (reset s) = None"
  "m_indexMapping (reset s) = m_indexMapping s"
  "m_useGammaCorrection (reset s) = m_useGammaCorrection s"
  "m_rgbToRgbw (reset s) = m_rgbToRgbw s"
  "trace (reset s) = trace s @ [BindingsReset]"
  by (simp_all add: reset_def emit_def)

lemma strict_eq_false: "strict_eq r (JBool False) \<longleftrightarrow> r = JBool False"
  by (cases r) auto

lemma strict_eq_imp_eq: "strict_eq a b \<Longrightarrow> a = b"
  by (cases a; cases b) simp_all

lemma strict_eq_num: "strict_eq a (JNum k) \<longleftrightarrow> a = JNum k"
  by (cases a) auto

lemma setBrightness_uninitialized:
  "\<not> m_isInitialized s \<Longrightarrow>
   setBrightness s b r = (Some (Error ''setBrightness called before initialization.''), s)"
  by (simp add: setBrightness_def)

lemma setBrightness_initialized:
  "m_isInitialized s \<Longrightarrow>
   setBrightness s b r =
     (None,
      s\<lparr>trace := trace s @
          BindingsSetBrightness
            (if m_useGammaCorrection s = Some True then uint (gammaTable ! nat (b mod 256)) else b)
          # (if r = JBool False then [] else [BindingsRender (m_outputBuffer s)])\<rparr>)"
  by (simp add: setBrightness_def Let_def emit_def strict_eq_false)

lemma render_mapping: "m_indexMapping (fst (snd (render s data))) = m_indexMapping s"
  by (cases "m_isInitialized s")
    (simp_all add: render_unfold render_uninitialized split: prod.splits option.splits)

lemma setBrightness_mapping: "m_indexMapping (snd (setBrightness s b r)) = m_indexMapping s"
  by (cases "m_isInitialized s") (simp_all add: setBrightness_initialized setBrightness_uninitialized)

lemma do_call_mapping: "m_indexMapping (do_call SK6812W mem s c) = m_indexMapping s"
  by (cases c) (simp_all add: init_mapping render_mapping setBrightness_mapping reset_fields)

lemma run_mapping: "m_indexMapping (run SK6812W mem s calls) = m_indexMapping s"
  unfolding run_def by (induction calls arbitrary: s) (simp_all add: do_call_mapping)

section \<open>The values of the gamma table\<close>

lemma powr_20_9_pow:
  fixes x :: real
  assumes "0 < x"
  shows "(x powr (20 / 9)) ^ 9 = x ^ 20"
proof -
  have "(x powr (20 / 9)) ^ 9 = (x powr (20 / 9)) powr (9::real)" by simp
  also have "\<dots> = x powr (20 / 9 * 9)" by (rule powr_powr)
  also have "\<dots> = x powr (20::real)" by simp
  also have "\<dots> = x ^ 20" using assms by simp
  finally show ?thesis .
qed

lemma gamma_check_sound:
  assumes "gamma_check i k"
  shows "of_int k + 1 / 1024 \<le> gamma_value i \<and> gamma_value i \<le> of_int k + 1023 / 1024"
proof (cases "i = 0")
  case True
  then show ?thesis using assms by (simp add: gamma_check_def gamma_value_def)
next
  case False
  then have i: "0 < real i / 255" by simp
  from assms False have k: "0 \<le> k"
    and lo: "(1024 * k - 511) ^ 9 * 255 ^ 11 \<le> int i ^ 20 * 2 ^ 90"
    and hi: "int i ^ 20 * 2 ^ 90 \<le> (1024 * k + 511) ^ 9 * 255 ^ 11"
    by (simp_all add: gamma_check_def)
  define p where "p = (real i / 255) powr (20 / 9)"
  define a where "a = (1024 * real_of_int k - 511) / 261120"
  define b where "b = (1024 * real_of_int k + 511) / 261120"
  have p0: "0 \<le> p" by (simp add: p_def)
  have p9: "p ^ 9 = (real i / 255) ^ 20" unfolding p_def by (rule powr_20_9_pow [OF i])
  have gv: "gamma_value i = p * 255 + 1 / 2" by (simp add: gamma_value_def p_def)
  have "real_of_int ((1024 * k - 511) ^ 9 * 255 ^ 11) \<le> real_of_int (int i ^ 20 * 2 ^ 90)"
    using lo by (simp only: of_int_le_iff)
  then have lo': "(1024 * of_int k - 511) ^ 9 * 255 ^ 11 \<le> real i ^ 20 * (1024::real) ^ 9"
    by simp
  have "real_of_int (int i ^ 20 * 2 ^ 90) \<le> real_of_int ((1024 * k + 511) ^ 9 * 255 ^ 11)"
    using hi by (simp only: of_int_le_iff)
  then have hi': "real i ^ 20 * (1024::real) ^ 9 \<le> (1024 * of_int k + 511) ^ 9 * 255 ^ 11"
    by simp
  have c: "(261120::real) ^ 9 = 1024 ^ 9 * 255 ^ 9" "(255::real) ^ 20 = 255 ^ 9 * 255 ^ 11"
    by simp_all
  have lower: "a \<le> p"
  proof (cases "a \<le> 0")
    case True
    with p0 show ?thesis by linarith
  next
    case False
    then have a0: "0 \<le> a" by simp
    have "a ^ 9 * 261120 ^ 9 * 255 ^ 11 \<le> (real i / 255) ^ 20 * 261120 ^ 9 * 255 ^ 11"
      using lo' unfolding a_def by (simp add: power_divide c)
    then have "a ^ 9 \<le> p ^ 9" unfolding p9 by simp
    then show ?thesis using a0 p0 by (simp add: power_mono_iff)
  qed
  have b0: "0 \<le> b" using k by (simp add: b_def)
  have "(real i / 255) ^ 20 * 261120 ^ 9 * 255 ^ 11 \<le> b ^ 9 * 261120 ^ 9 * 255 ^ 11"
    using hi' unfolding b_def by (simp add: power_divide c)
  then have "p ^ 9 \<le> b ^ 9" unfolding p9 by simp
  then have upper: "p \<le> b" using b0 p0 by (simp add: power_mono_iff)
  from lower upper show ?thesis unfolding gv a_def b_def by (simp add: field_simps)
qed

lemma check_from_sound:
  "check_from i ks \<Longrightarrow> j < length ks \<Longrightarrow> gamma_check (i + j) (ks ! j)"
proof (induction ks arbitrary: i j)
  case Nil
  then show ?case by simp
next
  case (Cons k ks)
  show ?case
  proof (cases j)
    case 0
    with Cons.prems show ?thesis by simp
  next
    case (Suc j')
    with Cons.prems have "gamma_check (i + 1 + j') (ks ! j')"
      by (intro Cons.IH) simp_all
    with Suc show ?thesis by simp
  qed
qed

lemma check_from_appendI:
  "check_from i xs \<Longrightarrow> length xs = n \<Longrightarrow> i + n = m \<Longrightarrow> check_from m ys \<Longrightarrow>
   check_from i (xs @ ys)"
proof (induction xs arbitrary: i n)
  case Nil
  then show ?case by simp
next
  case (Cons x xs)
  from Cons.prems have "check_from (i + 1) (xs @ ys)"
    by (intro Cons.IH [where n = "n - 1"]) auto
  with Cons.prems show ?case by simp
qed

lemma gamma_values_checked_0:
  "check_from 0
     [0, 0, 0, 0, 0, 0, 0, 0, 0, 0, 0, 0, 0, 0, 0, 0,
      1, 1, 1, 1, 1, 1, 1, 1, 1, 1, 2, 2, 2, 2, 2, 2]"
  by code_simp

lemma gamma_values_checked_1:
  "check_from 32
     [3, 3, 3, 3, 3, 3, 4, 4, 4, 4, 5, 5, 5, 5, 6, 6,
      6, 7, 7, 7, 7, 8, 8, 8, 9, 9, 9, 10, 10, 11, 11, 11]"
  by code_simp

lemma gamma_values_checked_2:
  "check_from 64
     [12, 12, 13, 13, 14, 14, 14, 15, 15, 16, 16, 17, 17, 18, 18, 19,
      19, 20, 20, 21, 22, 22, 23, 23, 24, 25, 25, 26, 26, 27, 28, 28]"
  by code_simp

lemma gamma_values_checked_3:
  "check_from 96
     [29, 30, 30, 31, 32, 33, 33, 34, 35, 35, 36, 37, 38, 39, 39, 40,
      41, 42, 43, 43, 44, 45, 46, 47, 48, 49, 50, 50, 51, 52, 53, 54]"
  by code_simp

lemma gamma_values_checked_4:
  "check_from 128
     [55, 56, 57, 58, 59, 60, 61, 62, 63, 64, 65, 66, 67, 68, 69, 71,
      72, 73, 74, 75, 76, 77, 78, 80, 81, 82, 83, 84, 86, 87, 88, 89]"
  by code_simp

lemma gamma_values_checked_5:
  "check_from 160
     [91, 92, 93, 94, 96, 97, 98, 100, 101, 102, 104, 105, 106, 108, 109, 110,
      112, 113, 115, 116, 118, 119, 121, 122, 123, 125, 126, 128, 130, 131, 133, 134]"
  by code_simp

lemma gamma_values_checked_6:
  "check_from 192
     [136, 137, 139, 140, 142, 144, 145, 147, 149, 150, 152, 154, 155, 157, 159, 160,
      162, 164, 166, 167, 169, 171, 173, 175, 176, 178, 180, 182, 184, 186, 187, 189]"
  by code_simp

lemma gamma_values_checked_7:
  "check_from 224
     [191, 193, 195, 197, 199, 201, 203, 205, 207, 209, 211, 213, 215, 217, 219, 221,
      223, 225, 227, 229, 231, 233, 235, 238, 240, 242, 244, 246, 248, 251, 253, 255]"
  by code_simp

lemma gamma_values_checked: "check_from 0 gamma_values"
  unfolding gamma_values_def
  apply (rule check_from_appendI [where n = 32 and m = 32, OF gamma_values_checked_0])
    apply simp
   apply simp
  apply (rule check_from_appendI [where n = 32 and m = 64, OF gamma_values_checked_1])
    apply simp
   apply simp
  apply (rule check_from_appendI [where n = 32 and m = 96, OF gamma_values_checked_2])
    apply simp
   apply simp
  apply (rule check_from_appendI [where n = 32 and m = 128, OF gamma_values_checked_3])
    apply simp
   apply simp
  apply (rule check_from_appendI [where n = 32 and m = 160, OF gamma_values_checked_4])
    apply simp
   apply simp
  apply (rule check_from_appendI [where n = 32 and m = 192, OF gamma_values_checked_5])
    apply simp
   apply simp
  apply (rule check_from_appendI [where n = 32 and m = 224, OF gamma_values_checked_6])
    apply simp
   apply simp
  apply (rule gamma_values_checked_7)
  done

lemma length_gamma_values: "length gamma_values = 256"
  by (simp add: gamma_values_def)

lemma gamma_bounds:
  assumes "i < 256"
  shows "of_int (gamma_values ! i) + 1 / 1024 \<le> gamma_value i
       \<and> gamma_value i \<le> of_int (gamma_values ! i) + 1023 / 1024"
  using check_from_sound [OF gamma_values_checked, of i] assms
  by (intro gamma_check_sound) (simp add: length_gamma_values)

lemma gamma_floor: "i < 256 \<Longrightarrow> \<lfloor>gamma_value i\<rfloor> = gamma_values ! i"
  using gamma_bounds [of i] by (intro floor_unique) linarith+

lemma gamma_margin:
  assumes "i < 256" and "\<bar>e\<bar> < 1 / 1024"
  shows "\<lfloor>gamma_value i + e\<rfloor> = \<lfloor>gamma_value i\<rfloor>"
proof -
  have "\<lfloor>gamma_value i + e\<rfloor> = gamma_values ! i"
    using gamma_bounds [OF assms(1)] assms(2) by (intro floor_unique) linarith+
  then show ?thesis using gamma_floor [OF assms(1)] by simp
qed

lemma gammaTable_values: "gammaTable = map word_of_int gamma_values"
  by (rule nth_equalityI) (simp_all add: gammaTable_def length_gamma_values gamma_floor)

lemma sorted_gamma_values: "sorted gamma_values"
  by (simp add: gamma_values_def sorted2_simps del: sorted_wrt.simps)

lemma gamma_values_ends: "gamma_values ! 0 = 0" "gamma_values ! 255 = 255"
  by (simp_all add: gamma_values_def)

lemma gamma_values_range:
  assumes "i < 256"
  shows "0 \<le> gamma_values ! i \<and> gamma_values ! i \<le> 255"
proof -
  have "gamma_values ! 0 \<le> gamma_values ! i"
    using assms by (intro sorted_nth_mono [OF sorted_gamma_values]) (simp_all add: length_gamma_values)
  moreover have "gamma_values ! i \<le> gamma_values ! 255"
    using assms by (intro sorted_nth_mono [OF sorted_gamma_values]) (simp_all add: length_gamma_values)
  ultimately show ?thesis by (simp add: gamma_values_ends)
qed

lemma length_gammaTable: "length gammaTable = 256"
  by (simp add: gammaTable_def)

lemma uint_gammaTable: "i < 256 \<Longrightarrow> uint (gammaTable ! i) = gamma_values ! i"
  using gamma_values_range [of i]
  by (simp add: gammaTable_values length_gamma_values uint_word_of_int take_bit_int_eq_self)

lemma gammaTable_nth: "i < 256 \<Longrightarrow> gammaTable ! i = word_of_int (gamma_values ! i)"
  by (simp add: gammaTable_values length_gamma_values)

section \<open>Rounding errors of the whiteness computation\<close>

lemma rne_error: "\<bar>of_int (rne y) - y\<bar> \<le> 1 / 2"
  unfolding rne_def Let_def by (auto; linarith)

lemma exp_up_le: "x < 2 ^ Suc n \<Longrightarrow> exp_up x \<le> int n"
proof (induction n arbitrary: x)
  case 0
  then show ?case by (subst exp_up.simps) simp
next
  case (Suc n)
  show ?case
  proof (cases "2 \<le> x")
    case True
    from Suc.prems have "x / 2 < 2 ^ Suc n" by simp
    then have "exp_up (x / 2) \<le> int n" by (rule Suc.IH)
    with True show ?thesis by (subst exp_up.simps) simp
  next
    case False
    then show ?thesis by (subst exp_up.simps) simp
  qed
qed

lemma exp_down_le: "exp_down x \<le> 0"
proof (induction x rule: exp_down.induct)
  case (1 x)
  then show ?case by (subst exp_down.simps) auto
qed

lemma binade_le: "x < 2048 \<Longrightarrow> binade x \<le> 10"
  using exp_up_le [of x 10] exp_down_le [of x] by (simp add: binade_def)

lemma fl_error:
  assumes "\<bar>x\<bar> < 2048"
  shows "\<bar>fl x - x\<bar> \<le> 1 / 2 ^ 43"
proof (cases "x = 0")
  case True
  then show ?thesis by (simp add: fl_def)
next
  case False
  define e where "e = ulp_exp x"
  define u :: real where "u = 2 powi e"
  have u0: "0 < u" by (simp add: u_def)
  have "e \<le> - 42" using binade_le [OF assms] by (simp add: e_def ulp_exp_def)
  then have "u \<le> 2 powi (- 42)" unfolding u_def by (intro power_int_increasing) simp_all
  then have u42: "u \<le> 1 / 2 ^ 42" by (simp add: power_int_minus field_simps)
  have "fl x - x = (of_int (rne (x / u)) - x / u) * u"
    using False u0 by (simp add: fl_def e_def u_def field_simps)
  then have "\<bar>fl x - x\<bar> = \<bar>of_int (rne (x / u)) - x / u\<bar> * u"
    using u0 by (simp add: abs_mult)
  also have "\<dots> \<le> 1 / 2 * u"
    using rne_error [of "x / u"] u0 by (intro mult_right_mono) simp_all
  also have "\<dots> \<le> 1 / 2 * (1 / 2 ^ 42)" using u42 by simp
  finally show ?thesis by simp
qed


lemma hue_error:
  fixes a mult t :: real and c M :: int
  assumes "0 \<le> c" and "c \<le> M" and "0 < M" and "M \<le> 255"
    and a: "a = 255 / of_int M" and t: "0 \<le> t" "t \<le> 1" and m: "\<bar>mult - a\<bar> \<le> t"
    and e: "1 / 2 ^ 43 \<le> t"
  shows "\<bar>fl (of_int c * mult) - of_int c * a\<bar> \<le> 256 * t"
proof -
  have c255: "real_of_int c \<le> 255" and c0: "0 \<le> real_of_int c" using assms by simp_all
  have "of_int c * a = 255 * (of_int c / of_int M)" by (simp add: a)
  moreover have "real_of_int c / of_int M \<le> 1" using assms by simp
  moreover have "0 \<le> real_of_int c / of_int M" using assms by simp
  ultimately have ca: "0 \<le> of_int c * a" "of_int c * a \<le> 255" by simp_all
  have "\<bar>of_int c * mult - of_int c * a\<bar> = of_int c * \<bar>mult - a\<bar>"
    using c0 by (simp add: abs_mult flip: right_diff_distrib)
  also have "\<dots> \<le> 255 * t"
    using c0 c255 m t by (intro mult_mono) simp_all
  finally have d: "\<bar>of_int c * mult - of_int c * a\<bar> \<le> 255 * t" .
  with ca t have "\<bar>of_int c * mult\<bar> < 2048" by linarith
  then have "\<bar>fl (of_int c * mult) - of_int c * mult\<bar> \<le> 1 / 2 ^ 43" by (rule fl_error)
  with d e show ?thesis by linarith
qed

lemma whiteness_value_close:
  assumes r: "0 \<le> r" "r \<le> 255" and g: "0 \<le> g" "g \<le> 255" and b: "0 \<le> b" "b \<le> 255"
    and pos: "0 < max r (max g b)"
  shows "\<bar>whiteness_value r g b - of_int (min r (min g b))\<bar> \<le> 1549 / 2 ^ 43"
proof -
  define M where "M = max r (max g b)"
  define m where "m = min r (min g b)"
  define t :: real where "t = 1 / 2 ^ 43"
  define a :: real where "a = 255 / of_int M"
  define mult where "mult = fl a"
  define rHue where "rHue = fl (of_int r * mult)"
  define gHue where "gHue = fl (of_int g * mult)"
  define bHue where "bHue = fl (of_int b * mult)"
  define mx where "mx = max rHue (max gHue bHue)"
  define mn where "mn = min rHue (min gHue bHue)"
  define s where "s = fl (mx + mn)"
  define h where "h = fl (s / 2)"
  define d where "d = fl (h - 127.5)"
  define e2 where "e2 = fl (d * 2)"
  define q where "q = fl (e2 / mult)"
  have wv: "whiteness_value r g b = q"
    by (simp add: whiteness_value_def Let_def q_def e2_def d_def h_def s_def mx_def mn_def
        rHue_def gHue_def bHue_def mult_def a_def M_def)
  have t: "0 < t" "t \<le> 1 / 1000000" by (simp_all add: t_def)
  have te: "1 / 2 ^ 43 \<le> t" by (simp add: t_def)
  have M: "0 < M" "M \<le> 255" "r \<le> M" "g \<le> M" "b \<le> M"
    using assms by (simp_all add: M_def)
  have m: "0 \<le> m" "m \<le> r" "m \<le> g" "m \<le> b" "m \<le> 255"
    using assms by (simp_all add: m_def)
  have a1: "1 \<le> a" "a \<le> 255" using M by (simp_all add: a_def field_simps)
  have Ma: "of_int M * a = 255" using M by (simp add: a_def)
  have mult: "\<bar>mult - a\<bar> \<le> t"
    unfolding mult_def t_def using a1 by (intro fl_error) simp
  have hue: "\<bar>fl (of_int c * mult) - of_int c * a\<bar> \<le> 256 * t" if "0 \<le> c" "c \<le> M" for c
    using that M(1,2) a_def t te mult by (intro hue_error [where M = M]) simp_all
  have hr: "\<bar>rHue - of_int r * a\<bar> \<le> 256 * t" unfolding rHue_def using r M by (intro hue) simp_all
  have hg: "\<bar>gHue - of_int g * a\<bar> \<le> 256 * t" unfolding gHue_def using g M by (intro hue) simp_all
  have hb: "\<bar>bHue - of_int b * a\<bar> \<le> 256 * t" unfolding bHue_def using b M by (intro hue) simp_all
  have a0: "0 \<le> a" using a1 by simp
  have maxa: "max (of_int r * a) (max (of_int g * a) (of_int b * a)) = of_int M * a"
    unfolding M_def using a0 by (simp add: of_int_max max_mult_distrib_right)
  have mina: "min (of_int r * a) (min (of_int g * a) (of_int b * a)) = of_int m * a"
    unfolding m_def using a0 by (simp add: of_int_min min_mult_distrib_right)
  define A where "A = of_int m * a"
  have "A = 255 * (of_int m / of_int M)" by (simp add: A_def a_def)
  moreover have "real_of_int m / of_int M \<le> 1" "0 \<le> real_of_int m / of_int M"
    using m M by simp_all
  ultimately have A: "0 \<le> A" "A \<le> 255" by simp_all
  have emx: "\<bar>mx - 255\<bar> \<le> 256 * t"
    using hr hg hb maxa unfolding mx_def Ma by linarith
  have emn: "\<bar>mn - A\<bar> \<le> 256 * t"
    using hr hg hb mina unfolding mn_def A_def by linarith
  have "\<bar>mx + mn\<bar> < 2048" using emx emn A t by argo
  then have "\<bar>s - (mx + mn)\<bar> \<le> t" unfolding s_def t_def by (rule fl_error)
  with emx emn have es: "\<bar>s - (255 + A)\<bar> \<le> 513 * t" by argo
  have "\<bar>s / 2\<bar> < 2048" using es A t by argo
  then have "\<bar>h - s / 2\<bar> \<le> t" unfolding h_def t_def by (rule fl_error)
  with es t have eh: "\<bar>h - (255 + A) / 2\<bar> \<le> 258 * t" by argo
  have "\<bar>h - 127.5\<bar> < 2048" using eh A t by argo
  then have "\<bar>d - (h - 127.5)\<bar> \<le> t" unfolding d_def t_def by (rule fl_error)
  with eh have ed: "\<bar>d - A / 2\<bar> \<le> 259 * t" by argo
  have "\<bar>d * 2\<bar> < 2048" using ed A t by argo
  then have "\<bar>e2 - d * 2\<bar> \<le> t" unfolding e2_def t_def by (rule fl_error)
  with ed have ee: "\<bar>e2 - A\<bar> \<le> 519 * t" by argo
  have mult_half: "1 / 2 \<le> mult" using mult a1 t by argo
  have "\<bar>of_int m * a - of_int m * mult\<bar> = of_int m * \<bar>a - mult\<bar>"
    using m by (simp add: abs_mult flip: right_diff_distrib)
  also have "\<dots> \<le> 255 * t"
    using m mult t by (intro mult_mono) simp_all
  finally have "\<bar>A - of_int m * mult\<bar> \<le> 255 * t" by (simp add: A_def)
  with ee have num: "\<bar>e2 - of_int m * mult\<bar> \<le> 774 * t" by argo
  have "e2 / mult - of_int m = (e2 - of_int m * mult) / mult"
    using mult_half by (simp add: field_simps)
  then have "\<bar>e2 / mult - of_int m\<bar> = \<bar>e2 - of_int m * mult\<bar> / mult"
    using mult_half by simp
  also have "\<dots> \<le> (774 * t) / (1 / 2)"
    using num mult_half t by (intro frac_le) simp_all
  finally have eq: "\<bar>e2 / mult - of_int m\<bar> \<le> 1548 * t" by simp
  have mr: "0 \<le> real_of_int m" "real_of_int m \<le> 255" using m by simp_all
  have "\<bar>e2 / mult\<bar> < 2048" using eq mr t by argo
  then have "\<bar>q - e2 / mult\<bar> \<le> t" unfolding q_def t_def by (rule fl_error)
  with eq have "\<bar>q - of_int m\<bar> \<le> 1549 * t" by argo
  then show ?thesis by (simp add: wv m_def t_def)
qed

lemma trunc_close:
  assumes "\<bar>q - of_int m\<bar> < 1" and "0 \<le> m"
  shows "0 \<le> trunc q \<and> trunc q \<le> m \<and> m - 1 \<le> trunc q"
proof (cases "0 \<le> q")
  case True
  then have "trunc q = \<lfloor>q\<rfloor>" by (simp add: trunc_def)
  moreover have "0 \<le> \<lfloor>q\<rfloor>" using True by simp
  moreover have "\<lfloor>q\<rfloor> \<le> m" "m - 1 \<le> \<lfloor>q\<rfloor>" using assms by linarith+
  ultimately show ?thesis by simp
next
  case False
  then have "trunc q = \<lceil>q\<rceil>" by (simp add: trunc_def)
  moreover have "\<lceil>q\<rceil> = 0" using False assms by linarith
  moreover have "m = 0" using False assms by linarith
  ultimately show ?thesis by simp
qed

lemma ToInt32_small: "0 \<le> trunc q \<Longrightarrow> trunc q \<le> 255 \<Longrightarrow> ToInt32 q = trunc q"
  by (simp add: ToInt32_def sint_sbintrunc' signed_take_bit_int_eq_self)

lemma whiteness_range:
  assumes "0 \<le> r" "r \<le> 255" "0 \<le> g" "g \<le> 255" "0 \<le> b" "b \<le> 255"
    and "0 < max r (max g b)"
  shows "0 \<le> trunc (whiteness_value r g b)
       \<and> trunc (whiteness_value r g b) \<le> min r (min g b)
       \<and> min r (min g b) - 1 \<le> trunc (whiteness_value r g b)
       \<and> ToInt32 (whiteness_value r g b) = trunc (whiteness_value r g b)"
proof -
  have "\<bar>whiteness_value r g b - of_int (min r (min g b))\<bar> \<le> 1549 / 2 ^ 43"
    using assms by (rule whiteness_value_close)
  then have c: "\<bar>whiteness_value r g b - of_int (min r (min g b))\<bar> < 1" by simp
  have m: "0 \<le> min r (min g b)" "min r (min g b) \<le> 255" using assms by simp_all
  from trunc_close [OF c m(1)]
  have t: "0 \<le> trunc (whiteness_value r g b)"
    "trunc (whiteness_value r g b) \<le> min r (min g b)"
    "min r (min g b) - 1 \<le> trunc (whiteness_value r g b)"
    by simp_all
  from t(2) m(2) have "trunc (whiteness_value r g b) \<le> 255" by linarith
  with t(1) have "ToInt32 (whiteness_value r g b) = trunc (whiteness_value r g b)"
    by (rule ToInt32_small)
  with t show ?thesis by simp
qed

section \<open>Bytes of the converted pixel\<close>

lemma ff_mask: "(0xff :: u32) = mask 8"
  by (simp add: mask_eq_exp_minus_1)

lemma channel_word:
  "n \<le> 24 \<Longrightarrow> signed_drop_bit n p AND 0xff = (ucast (ucast (drop_bit n p) :: u8) :: u32)"
  for p :: u32
  unfolding ff_mask
  by (rule bit_word_eqI) (auto simp add: bit_simps bit_signed_drop_bit_iff)

lemma mask_word: "p AND 0xff = (ucast (ucast p :: u8) :: u32)" for p :: u32
  using channel_word [of 0 p] by simp

lemma uint_ucast_u8: "uint (ucast a :: u32) = uint a" for a :: u8
  by (simp add: uint_up_ucast is_up)

lemma channels:
  "uint (signed_drop_bit 16 p AND 0xff) = byte_of 2 p"
  "uint (signed_drop_bit 8 p AND 0xff) = byte_of 1 p"
  "uint (p AND 0xff) = byte_of 0 p"
proof -
  have "signed_drop_bit 16 p AND 0xff = (ucast (ucast (drop_bit 16 p) :: u8) :: u32)"
    by (rule channel_word) simp
  then show "uint (signed_drop_bit 16 p AND 0xff) = byte_of 2 p"
    by (simp only: uint_ucast_u8 byte_of_def) simp
  have "signed_drop_bit 8 p AND 0xff = (ucast (ucast (drop_bit 8 p) :: u8) :: u32)"
    by (rule channel_word) simp
  then show "uint (signed_drop_bit 8 p AND 0xff) = byte_of 1 p"
    by (simp only: uint_ucast_u8 byte_of_def) simp
  show "uint (p AND 0xff) = byte_of 0 p"
    by (simp only: mask_word uint_ucast_u8 byte_of_def) simp
qed

lemma byte_of_range: "0 \<le> byte_of k x \<and> byte_of k x \<le> 255"
proof -
  have "uint (ucast (drop_bit (8 * k) x) :: u8) < 2 ^ 8"
    using uint_bounded [of "ucast (drop_bit (8 * k) x) :: u8"] by simp
  then show ?thesis by (simp add: byte_of_def)
qed

lemma word_of_int_byte:
  "(word_of_int (uint a) :: u32) = ucast a" for a :: u8
  by simp

lemma pack_bytes:
  fixes a b c d :: u8
  defines "x \<equiv> push_bit 24 (ucast a) OR push_bit 16 (ucast b) OR push_bit 8 (ucast c) OR ucast d :: u32"
  shows "ucast (drop_bit 24 x) = a" "ucast (drop_bit 16 x) = b" "ucast (drop_bit 8 x) = c" "ucast x = d"
  unfolding x_def
  by (rule bit_word_eqI; auto simp add: bit_simps dest: bit_imp_le_length)+

lemma packed_bytes:
  fixes w r g b :: int
  assumes "0 \<le> w" "w \<le> r" "w \<le> g" "w \<le> b" "r \<le> 255" "g \<le> 255" "b \<le> 255"
  defines "x \<equiv> push_bit 24 (word_of_int w) OR push_bit 16 (word_of_int (r - w))
      OR push_bit 8 (word_of_int (g - w)) OR word_of_int (b - w) :: u32"
  shows "byte_of 3 x = w \<and> byte_of 2 x = r - w \<and> byte_of 1 x = g - w \<and> byte_of 0 x = b - w"
proof -
  define a4 :: u8 where "a4 = word_of_int w"
  define a3 :: u8 where "a3 = word_of_int (r - w)"
  define a2 :: u8 where "a2 = word_of_int (g - w)"
  define a1 :: u8 where "a1 = word_of_int (b - w)"
  have u: "uint (word_of_int v :: u8) = v" if "0 \<le> v" "v \<le> 255" for v
    using that by (simp add: uint_word_of_int take_bit_int_eq_self)
  have u4: "uint a4 = w" unfolding a4_def using assms(1-7) by (intro u) linarith+
  have u3: "uint a3 = r - w" unfolding a3_def using assms(1-7) by (intro u) linarith+
  have u2: "uint a2 = g - w" unfolding a2_def using assms(1-7) by (intro u) linarith+
  have u1: "uint a1 = b - w" unfolding a1_def using assms(1-7) by (intro u) linarith+
  have e: "(word_of_int w :: u32) = ucast a4" "(word_of_int (r - w) :: u32) = ucast a3"
    "(word_of_int (g - w) :: u32) = ucast a2" "(word_of_int (b - w) :: u32) = ucast a1"
    using word_of_int_byte [of a4] word_of_int_byte [of a3] word_of_int_byte [of a2]
      word_of_int_byte [of a1]
    by (simp_all only: u4 u3 u2 u1)
  have x: "x = push_bit 24 (ucast a4) OR push_bit 16 (ucast a3) OR push_bit 8 (ucast a2) OR ucast a1"
    unfolding x_def by (simp only: e)
  have "byte_of 3 x = uint a4" "byte_of 2 x = uint a3" "byte_of 1 x = uint a2" "byte_of 0 x = uint a1"
    unfolding byte_of_def x using pack_bytes [of a4 a3 a2 a1] by simp_all
  then show ?thesis by (simp only: u4 u3 u2 u1)
qed

lemma rgbToRgbw_pixel_bytes:
  "rgbToRgbw_pixel p =
     (let R = byte_of 2 p; G = byte_of 1 p; B = byte_of 0 p
      in if max R (max G B) = 0 then p
         else
           let w = ToInt32 (whiteness_value R G B)
           in push_bit 24 (word_of_int w) OR push_bit 16 (word_of_int (R - w))
              OR push_bit 8 (word_of_int (G - w)) OR word_of_int (B - w))"
  apply (simp only: rgbToRgbw_pixel_def channels(1) channels(2))
  apply (simp only: channels(3) Let_def)
  done

lemma gammaCorrect_packed:
  "gammaCorrect c =
     push_bit 24 (ucast (gammaTable ! nat (byte_of 3 c)))
     OR push_bit 16 (ucast (gammaTable ! nat (byte_of 2 c)))
     OR push_bit 8 (ucast (gammaTable ! nat (byte_of 1 c)))
     OR ucast (gammaTable ! nat (byte_of 0 c))"
proof -
  have i: "unat (ucast (ucast x :: u8) :: u32) = nat (uint (ucast x :: u8))" for x :: u32
    by (simp add: uint_ucast_u8 flip: nat_uint_eq)
  have 0: "unat (c AND 0xff) = nat (byte_of 0 c)"
    by (simp only: mask_word i byte_of_def) simp
  have 1: "unat (signed_drop_bit 8 c AND 0xff) = nat (byte_of 1 c)"
    by (simp only: channel_word [of 8 c, simplified] i byte_of_def) simp
  have 2: "unat (signed_drop_bit 16 c AND 0xff) = nat (byte_of 2 c)"
    by (simp only: channel_word [of 16 c, simplified] i byte_of_def) simp
  have 3: "unat (signed_drop_bit 24 c AND 0xff) = nat (byte_of 3 c)"
    by (simp only: channel_word [of 24 c, simplified] i byte_of_def) simp
  show ?thesis
    unfolding gammaCorrect_def 0 1 2 3 by (simp only: ac_simps)
qed

lemma gammaCorrect_bytes:
  "byte_of 3 (gammaCorrect c) = uint (gammaTable ! nat (byte_of 3 c))
   \<and> byte_of 2 (gammaCorrect c) = uint (gammaTable ! nat (byte_of 2 c))
   \<and> byte_of 1 (gammaCorrect c) = uint (gammaTable ! nat (byte_of 1 c))
   \<and> byte_of 0 (gammaCorrect c) = uint (gammaTable ! nat (byte_of 0 c))"
  unfolding gammaCorrect_packed byte_of_def
  using pack_bytes [of "gammaTable ! nat (byte_of 3 c)" "gammaTable ! nat (byte_of 2 c)"
      "gammaTable ! nat (byte_of 1 c)" "gammaTable ! nat (byte_of 0 c)"]
  by (simp add: byte_of_def)

lemma render_gamma_flag:
  "fst (render (s\<lparr>m_useGammaCorrection := g\<rparr>) data) = fst (render s data)
   \<and> snd (snd (render (s\<lparr>m_useGammaCorrection := g\<rparr>) data)) = snd (snd (render s data))
   \<and> m_outputBuffer (fst (snd (render (s\<lparr>m_useGammaCorrection := g\<rparr>) data)))
       = m_outputBuffer (fst (snd (render s data)))
   \<and> trace (fst (snd (render (s\<lparr>m_useGammaCorrection := g\<rparr>) data)))
       = trace (fst (snd (render s data)))"
  by (simp add: render_def Let_def emit_def split: prod.splits option.splits)

section \<open>The conversion at two pixels\<close>

text \<open>
  Each rounding is evaluated on its own: the operand is an exact rational, the result the
  nearest double (the denominators are powers of two).
\<close>

lemmas fl_eval = fl_def ulp_exp_def binade_def rne_def Let_def exp_up.simps exp_down.simps

lemma fl_gray:
  "fl (255 / 128) = 255 / 128" "fl 255 = 255" "fl 510 = 510" "fl (255 / 2) = 255 / 2"
  "fl 128 = 128"
  by (simp_all add: fl_eval)

lemma whiteness_gray: "whiteness_value 128 128 128 = 128"
  by (simp add: whiteness_value_def Let_def fl_gray)

lemma fl_733:
  "fl (255 / 7) = 2563432823614903 / 70368744177664"
  "fl (17944029765304321 / 70368744177664) = 255"
  "fl (7690298470844709 / 70368744177664) = 7690298470844709 / 70368744177664"
  "fl (25634328236149029 / 70368744177664) = 6408582059037257 / 17592186044416"
  "fl (6408582059037257 / 35184372088832) = 6408582059037257 / 35184372088832"
  "fl (1922574617711177 / 35184372088832) = 1922574617711177 / 35184372088832"
  "fl (1922574617711177 / 17592186044416) = 1922574617711177 / 17592186044416"
  "fl (7690298470844708 / 2563432823614903) = 6755399441055743 / 2251799813685248"
  by (simp_all add: fl_eval)

lemma whiteness_733: "whiteness_value 7 3 3 = 6755399441055743 / 2251799813685248"
  by (simp add: whiteness_value_def Let_def fl_733)

lemma rgbToRgbw_pixel_gray: "rgbToRgbw_pixel 0x00808080 = 0x80000000"
proof -
  have b: "byte_of 2 0x00808080 = 128" "byte_of 1 0x00808080 = 128" "byte_of 0 0x00808080 = 128"
    by (simp_all add: byte_of_def)
  have t: "ToInt32 128 = 128" by (simp add: ToInt32_def trunc_def)
  have "rgbToRgbw_pixel 0x00808080 =
      push_bit 24 (word_of_int 128) OR push_bit 16 (word_of_int (128 - 128))
      OR push_bit 8 (word_of_int (128 - 128)) OR word_of_int (128 - 128)"
    by (simp only: rgbToRgbw_pixel_bytes Let_def b whiteness_gray t) simp
  then show ?thesis by simp
qed

section \<open>Claims\<close>

text \<open>
  C5. For a mapping at least as long as the sequence whose entries are indices of the
  sequence, \<^verbatim>\<open>remap\<close> keeps the length and sets every position \<open>i\<close> to what the sequence
  held at position \<open>mapping[i]\<close> before the call: the reads are from the copy taken first,
  so that earlier writes are not seen. With the identity mapping the sequence is unchanged.
\<close>

theorem remap_snapshot:
  assumes "length data \<le> length m"
    and "\<forall>i<length data. 0 \<le> m ! i \<and> nat (m ! i) < length data"
  shows "length (remap data m) = length data
       \<and> (\<forall>i<length data. remap data m ! i = data ! nat (m ! i))
       \<and> remap data (map int [0..<length data]) = data"
proof (intro conjI allI impI)
  show "length (remap data m) = length data" by (rule remap_length)
next
  fix i assume "i < length data"
  then show "remap data m ! i = data ! nat (m ! i)"
    using assms by (simp add: remap_nth tmp_read_def)
next
  show "remap data (map int [0..<length data]) = data"
    by (rule nth_equalityI) (simp_all add: remap_eq tmp_read_def)
qed

theorem remap_snapshot_witness:
  "length (remap [0xA, 0xB, 0xC] [2, 1, 0]) = 3
   \<and> remap [0xA, 0xB, 0xC] [2, 1, 0] ! 0 = 0xC
   \<and> remap [0xA, 0xB, 0xC] [2, 1, 0] ! 1 = 0xB
   \<and> remap [0xA, 0xB, 0xC] [2, 1, 0] ! 2 = 0xA
   \<and> remap [0xA, 0xB, 0xC] (map int [0..<3]) = [0xA, 0xB, 0xC]"
proof -
  have len: "length [0xA, 0xB, 0xC :: u32] \<le> length [2, 1, 0 :: int]" by simp
  have rng: "\<forall>i<length [0xA, 0xB, 0xC :: u32].
      0 \<le> [2, 1, 0 :: int] ! i \<and> nat ([2, 1, 0 :: int] ! i) < length [0xA, 0xB, 0xC :: u32]"
    by (simp add: All_less_Suc)
  show ?thesis
    using remap_snapshot [OF len rng] by (simp add: All_less_Suc eval_nat_numeral)
qed

text \<open>
  C10. \<^verbatim>\<open>reset\<close> sets the state to uninitialised and drops the output buffer, and leaves a
  registered mapping alone, as \<^verbatim>\<open>init\<close> does; \<^verbatim>\<open>setIndexMapping\<close> registers the mapping in
  any state. After any calls of \<^verbatim>\<open>init\<close>, \<^verbatim>\<open>render\<close>, \<^verbatim>\<open>setBrightness\<close> and \<^verbatim>\<open>reset\<close> the
  mapping is still the registered one, and a render after a further \<^verbatim>\<open>reset\<close> and \<^verbatim>\<open>init\<close>
  returns the sequence remapped by it.
\<close>

theorem mapping_persists:
  "\<not> m_isInitialized (reset s) \<and> m_outputBuffer (reset s) = None
   \<and> m_indexMapping (reset s) = m_indexMapping s
   \<and> m_indexMapping (snd (init SK6812W mem s numLeds options)) = m_indexMapping s
   \<and> m_indexMapping (setIndexMapping s mapping) = mapping
   \<and> m_indexMapping (run SK6812W mem (setIndexMapping s mapping) calls) = mapping
   \<and> snd (snd (render (snd (init SK6812W mem
                (reset (run SK6812W mem (setIndexMapping s (Some m)) calls)) numLeds options)) data))
       = (if m_rgbToRgbw (snd (init SK6812W mem
                (reset (run SK6812W mem (setIndexMapping s (Some m)) calls)) numLeds options))
             = Some True
          then rgbToRgbw (remap data m) else remap data m)"
proof -
  let ?s1 = "run SK6812W mem (setIndexMapping s (Some m)) calls"
  let ?s2 = "snd (init SK6812W mem (reset ?s1) numLeds options)"
  have "m_indexMapping ?s2 = Some m"
    by (simp add: init_mapping reset_fields run_mapping setIndexMapping_def)
  then have "snd (snd (render ?s2 data))
      = (if m_rgbToRgbw ?s2 = Some True then rgbToRgbw (remap data m) else remap data m)"
    by (simp add: render_data init_initialized pipeline_def)
  then show ?thesis
    by (simp add: reset_fields init_mapping run_mapping setIndexMapping_def)
qed

theorem mapping_persists_witness:
  "snd (snd (render (snd (init JUndefined (\<lambda>_. 0)
       (reset (run JUndefined (\<lambda>_. 0) (setIndexMapping initial_state (Some [2, 1, 0]))
          [Init 3 JUndefined, Render [1, 2, 3]])) 3 JUndefined)) [0xA, 0xB, 0xC]))
   = [0xC, 0xB, 0xA]"
proof -
  have rgbw: "m_rgbToRgbw (snd (init JUndefined mem s n JUndefined)) = Some False" for mem s n
    by (simp add: init_ok option_value_def)
  have "remap [0xA, 0xB, 0xC] [2, 1, 0] = [0xC, 0xB, 0xA :: u32]"
    by (simp add: remap_eq tmp_read_def eval_nat_numeral)
  then show ?thesis
    using mapping_persists [of "initial_state" JUndefined "\<lambda>_. 0" 3 JUndefined "Some [2, 1, 0]"
        "[Init 3 JUndefined, Render [1, 2, 3]]" "[2, 1, 0]" "[0xA, 0xB, 0xC]"]
    by (simp add: rgbw)
qed

text \<open>
  C9. The gamma table has 256 entries; entry \<open>i\<close> is
  \<open>floor (pow (i / 255, 1 / 0.45) * 255 + 0.5)\<close>, a value that fits the byte it is stored
  in; the entries are non-decreasing in \<open>i\<close>; the first is 0 and the last is 255.
\<close>

theorem gamma_table_correct:
  "length gammaTable = 256
   \<and> (\<forall>i<256. uint (gammaTable ! i) = \<lfloor>(real i / 255) powr (1 / 0.45) * 255 + 0.5\<rfloor>)
   \<and> (\<forall>i j. i \<le> j \<and> j < 256 \<longrightarrow> gammaTable ! i \<le> gammaTable ! j)
   \<and> gammaTable ! 0 = 0 \<and> gammaTable ! 255 = 255"
proof (intro conjI allI impI)
  show "length gammaTable = 256" by (rule length_gammaTable)
next
  fix i :: nat assume "i < 256"
  then show "uint (gammaTable ! i) = \<lfloor>(real i / 255) powr (1 / 0.45) * 255 + 0.5\<rfloor>"
    using gamma_floor [of i] by (simp add: uint_gammaTable gamma_value_def)
next
  fix i j :: nat assume ij: "i \<le> j \<and> j < 256"
  then have "gamma_values ! i \<le> gamma_values ! j"
    by (intro sorted_nth_mono [OF sorted_gamma_values]) (simp_all add: length_gamma_values)
  with ij show "gammaTable ! i \<le> gammaTable ! j"
    by (simp add: word_le_def uint_gammaTable)
next
  show "gammaTable ! 0 = 0" by (simp add: gammaTable_nth gamma_values_ends)
next
  show "gammaTable ! 255 = 255" by (simp add: gammaTable_nth gamma_values_ends)
qed

theorem gamma_table_correct_witness:
  "uint (gammaTable ! 128) = \<lfloor>(real 128 / 255) powr (1 / 0.45) * 255 + 0.5\<rfloor>
   \<and> gammaTable ! 128 = 55
   \<and> gammaTable ! 10 \<le> gammaTable ! 200
   \<and> gammaTable ! 10 = 0 \<and> gammaTable ! 200 = 149"
proof -
  have v: "gammaTable ! 128 = 55" "gammaTable ! 10 = 0" "gammaTable ! 200 = 149"
    by (simp_all add: gammaTable_nth gamma_values_def)
  have "(128::nat) < 256" and "(10::nat) \<le> 200 \<and> (200::nat) < 256" by simp_all
  with gamma_table_correct v show ?thesis by blast
qed

text \<open>
  C8. In the initialised state \<^verbatim>\<open>setBrightness\<close> throws nothing, changes no variable, and
  hands the binding the gamma table's entry for the brightness when gamma correction is on
  and the brightness itself when it is off; it then hands the binding the current output
  buffer unless its second argument is \<^verbatim>\<open>false\<close>. The table is indexed with the low eight
  bits of the brightness, which for a byte is the brightness.
\<close>

theorem setBrightness_forwarding:
  assumes "m_isInitialized s"
  shows "setBrightness s b r =
     (None,
      s\<lparr>trace := trace s
          @ [BindingsSetBrightness
               (if m_useGammaCorrection s = Some True then uint (gammaTable ! nat (b mod 256))
                else b)]
          @ (if r = JBool False then [] else [BindingsRender (m_outputBuffer s)])\<rparr>)
     \<and> (0 \<le> b \<and> b < 256 \<longrightarrow> gammaTable ! nat (b mod 256) = gammaTable ! nat b)"
  using assms by (simp add: setBrightness_def Let_def emit_def strict_eq_false)

theorem setBrightness_forwarding_witness:
  "trace (snd (setBrightness
       (snd (init JUndefined (\<lambda>_. 0) initial_state 2 (JObject [(''gammaCorrection'', JBool True)])))
       128 JUndefined))
     = [BindingsInit 2 (JObject [(''gammaCorrection'', JBool True)]),
        BindingsSetBrightness 55, BindingsRender (Some [0, 0, 0, 0, 0, 0, 0, 0])]
   \<and> trace (snd (setBrightness
       (snd (init JUndefined (\<lambda>_. 0) initial_state 2 (JObject [(''gammaCorrection'', JBool True)])))
       128 (JBool False)))
     = [BindingsInit 2 (JObject [(''gammaCorrection'', JBool True)]), BindingsSetBrightness 55]
   \<and> trace (snd (setBrightness
       (snd (init JUndefined (\<lambda>_. 0) initial_state 2 JUndefined)) 128 (JNum 0)))
     = [BindingsInit 2 (JObject []), BindingsSetBrightness 128,
        BindingsRender (Some [0, 0, 0, 0, 0, 0, 0, 0])]"
proof -
  let ?on = "snd (init JUndefined (\<lambda>_. 0) initial_state 2 (JObject [(''gammaCorrection'', JBool True)]))"
  let ?off = "snd (init JUndefined (\<lambda>_. 0) initial_state 2 JUndefined)"
  have on: "?on = \<lparr>m_isInitialized = True, m_indexMapping = None,
      m_outputBuffer = Some [0, 0, 0, 0, 0, 0, 0, 0], m_useGammaCorrection = Some True,
      m_rgbToRgbw = Some False,
      trace = [BindingsInit 2 (JObject [(''gammaCorrection'', JBool True)])]\<rparr>"
    by (simp add: init_ok option_value_def effective_options_def initial_state_def new_Buffer_def
        upt_rec)
  have off: "?off = \<lparr>m_isInitialized = True, m_indexMapping = None,
      m_outputBuffer = Some [0, 0, 0, 0, 0, 0, 0, 0], m_useGammaCorrection = Some False,
      m_rgbToRgbw = Some False, trace = [BindingsInit 2 (JObject [])]\<rparr>"
    by (simp add: init_ok option_value_def effective_options_def initial_state_def new_Buffer_def
        upt_rec)
  have g: "uint (gammaTable ! 128) = 55"
    by (simp add: gammaTable_nth gamma_values_def)
  have i1: "m_isInitialized ?on" and i2: "m_isInitialized ?off"
    by (simp_all add: init_initialized)
  show ?thesis
    using setBrightness_forwarding [OF i1, of 128 JUndefined]
      setBrightness_forwarding [OF i1, of 128 "JBool False"]
      setBrightness_forwarding [OF i2, of 128 "JNum 0"]
    by (simp add: on off g)
qed

text \<open>
  C7. When \<^verbatim>\<open>render\<close> is given as many pixels as the output buffer was allocated for, it
  returns the transformed sequence and hands the binding a frame of \<open>4 * numLeds\<close> bytes in
  which the pixel word at index \<open>i\<close> stands at offset \<open>4 * i\<close>, least significant byte
  first. \<^verbatim>\<open>init\<close> allocates a buffer of \<open>4 * numLeds\<close> bytes. The pixels \<open>0x00010203\<close>,
  \<open>0x04050607\<close> give the bytes 03 02 01 00 07 06 05 04.
\<close>

theorem frame_encoding:
  assumes "m_isInitialized s" and "m_outputBuffer s = Some buf"
    and "length buf = 4 * numLeds" and "length data = numLeds"
  shows "(let d = pipeline s data; frame = concat (map bytesLE d)
          in render s data =
               (Inr d,
                s\<lparr>m_outputBuffer := Some frame,
                  trace := trace s @ [Emit ''beforeRender'' data, BindingsRender (Some frame),
                                      Emit ''render'' d]\<rparr>,
                d)
           \<and> length frame = 4 * numLeds
           \<and> (\<forall>i<numLeds.
                 frame ! (4 * i) = ucast (d ! i)
               \<and> frame ! (4 * i + 1) = ucast (drop_bit 8 (d ! i))
               \<and> frame ! (4 * i + 2) = ucast (drop_bit 16 (d ! i))
               \<and> frame ! (4 * i + 3) = ucast (drop_bit 24 (d ! i))))
     \<and> map_option length (m_outputBuffer (snd (init SK6812W mem s0 numLeds options)))
         = Some (4 * numLeds)"
proof -
  let ?d = "pipeline s data"
  let ?frame = "concat (map bytesLE ?d)"
  have r: "render s data =
     (Inr ?d,
      s\<lparr>m_outputBuffer := Some ?frame,
        trace := trace s @ [Emit ''beforeRender'' data, BindingsRender (Some ?frame),
                            Emit ''render'' ?d]\<rparr>,
      ?d)"
    using assms by (intro render_fits) simp_all
  have len: "length ?frame = 4 * numLeds"
    using assms by (simp add: length_concat_bytesLE length_pipeline)
  have bytes: "?frame ! (4 * i) = ucast (?d ! i)
      \<and> ?frame ! (4 * i + 1) = ucast (drop_bit 8 (?d ! i))
      \<and> ?frame ! (4 * i + 2) = ucast (drop_bit 16 (?d ! i))
      \<and> ?frame ! (4 * i + 3) = ucast (drop_bit 24 (?d ! i))" if "i < numLeds" for i
  proof -
    from that assms have i: "i < length ?d" by (simp add: length_pipeline)
    show ?thesis
      using nth_concat_bytesLE [OF i, of 0] nth_concat_bytesLE [OF i, of 1]
        nth_concat_bytesLE [OF i, of 2] nth_concat_bytesLE [OF i, of 3]
      by (simp add: bytesLE_def)
  qed
  have "map_option length (m_outputBuffer (snd (init SK6812W mem s0 numLeds options)))
      = Some (4 * numLeds)"
    by (cases "options = JNull") (simp_all add: init_ok init_null new_Buffer_def)
  with r len bytes show ?thesis by (simp add: Let_def)
qed

theorem frame_encoding_witness:
  "render (snd (init JUndefined (\<lambda>_. 0) initial_state 2 JUndefined)) [0x00010203, 0x04050607]
   = (Inr [0x00010203, 0x04050607],
      \<lparr>m_isInitialized = True, m_indexMapping = None,
       m_outputBuffer = Some [0x03, 0x02, 0x01, 0x00, 0x07, 0x06, 0x05, 0x04],
       m_useGammaCorrection = Some False, m_rgbToRgbw = Some False,
       trace = [BindingsInit 2 (JObject []),
                Emit ''beforeRender'' [0x00010203, 0x04050607],
                BindingsRender (Some [0x03, 0x02, 0x01, 0x00, 0x07, 0x06, 0x05, 0x04]),
                Emit ''render'' [0x00010203, 0x04050607]]\<rparr>,
      [0x00010203, 0x04050607])"
proof -
  let ?s = "snd (init JUndefined (\<lambda>_. 0) initial_state 2 JUndefined)"
  let ?data = "[0x00010203, 0x04050607] :: u32 list"
  have s: "?s = \<lparr>m_isInitialized = True, m_indexMapping = None,
      m_outputBuffer = Some [0, 0, 0, 0, 0, 0, 0, 0], m_useGammaCorrection = Some False,
      m_rgbToRgbw = Some False, trace = [BindingsInit 2 (JObject [])]\<rparr>"
    by (simp add: init_ok option_value_def effective_options_def initial_state_def new_Buffer_def
        upt_rec)
  have p: "pipeline ?s ?data = ?data" by (simp add: s pipeline_def)
  have a: "m_isInitialized ?s" by (simp add: s)
  have b: "m_outputBuffer ?s = Some [0, 0, 0, 0, 0, 0, 0, 0]" by (simp add: s)
  have c: "length [0, 0, 0, 0, 0, 0, 0, 0 :: u8] = 4 * 2" by simp
  have d: "length ?data = 2" by simp
  have e: "concat (map bytesLE ?data) = [0x03, 0x02, 0x01, 0x00, 0x07, 0x06, 0x05, 0x04]"
    by (simp add: bytesLE_def)
  show ?thesis
    using frame_encoding [OF a b c d, of JUndefined "\<lambda>_. 0" initial_state JUndefined]
    unfolding Let_def p e by (simp add: s)
qed

text \<open>
  C6. \<^verbatim>\<open>render\<close> and \<^verbatim>\<open>setBrightness\<close> throw their error about a call before initialisation
  exactly when \<^verbatim>\<open>_isInitialized\<close> is false; then the variables, the caller's array and the
  trace of outside effects are as before the call. Initially the state is uninitialised;
  after \<^verbatim>\<open>init\<close> it is initialised, \<^verbatim>\<open>setBrightness\<close> throws nothing and \<^verbatim>\<open>render\<close> of a
  sequence that fits the buffer returns; after \<^verbatim>\<open>reset\<close> it is uninitialised again.
\<close>

theorem initialization_guard:
  "(fst (render s data) = Inl (Error ''render called before initialization.'')
      \<longleftrightarrow> \<not> m_isInitialized s)
   \<and> (fst (setBrightness s b r) = Some (Error ''setBrightness called before initialization.'')
      \<longleftrightarrow> \<not> m_isInitialized s)
   \<and> (\<not> m_isInitialized s \<longrightarrow>
        render s data = (Inl (Error ''render called before initialization.''), s, data)
      \<and> setBrightness s b r = (Some (Error ''setBrightness called before initialization.''), s))
   \<and> (m_isInitialized s \<longrightarrow>
        fst (setBrightness s b r) = None
      \<and> (\<forall>buf. m_outputBuffer s = Some buf \<and> length buf = 4 * length data \<longrightarrow>
            fst (render s data) = Inr (pipeline s data)))
   \<and> \<not> m_isInitialized initial_state
   \<and> m_isInitialized (snd (init SK6812W mem s numLeds options))
   \<and> \<not> m_isInitialized (reset s)"
proof -
  have a: "fst (render s data) = Inl (Error ''render called before initialization.'')
      \<longleftrightarrow> \<not> m_isInitialized s"
  proof (cases "m_isInitialized s")
    case True
    then show ?thesis using render_error [of s data] by auto
  next
    case False
    then show ?thesis by (simp add: render_uninitialized)
  qed
  have b: "fst (setBrightness s b r) = Some (Error ''setBrightness called before initialization.'')
      \<longleftrightarrow> \<not> m_isInitialized s"
    by (cases "m_isInitialized s")
      (simp_all add: setBrightness_initialized setBrightness_uninitialized)
  have c: "fst (render s data) = Inr (pipeline s data)"
    if "m_isInitialized s" "m_outputBuffer s = Some buf" "length buf = 4 * length data" for buf
    using render_fits [OF that] by simp
  show ?thesis
    using a b c
    by (simp add: render_uninitialized setBrightness_uninitialized setBrightness_initialized
        initial_state_def init_initialized reset_fields)
qed

theorem initialization_guard_witness:
  "render initial_state [1, 2] =
     (Inl (Error ''render called before initialization.''), initial_state, [1, 2])
   \<and> setBrightness initial_state 10 JUndefined =
     (Some (Error ''setBrightness called before initialization.''), initial_state)
   \<and> fst (render (snd (init JUndefined (\<lambda>_. 0) initial_state 2 JUndefined)) [1, 2]) = Inr [1, 2]
   \<and> fst (setBrightness (snd (init JUndefined (\<lambda>_. 0) initial_state 2 JUndefined)) 10 JUndefined)
       = None
   \<and> fst (render (reset (snd (init JUndefined (\<lambda>_. 0) initial_state 2 JUndefined))) [1, 2])
       = Inl (Error ''render called before initialization.'')
   \<and> fst (setBrightness (reset (snd (init JUndefined (\<lambda>_. 0) initial_state 2 JUndefined)))
        10 JUndefined)
       = Some (Error ''setBrightness called before initialization.'')"
proof -
  let ?s = "snd (init JUndefined (\<lambda>_. 0) initial_state 2 JUndefined)"
  have s: "?s = \<lparr>m_isInitialized = True, m_indexMapping = None,
      m_outputBuffer = Some [0, 0, 0, 0, 0, 0, 0, 0], m_useGammaCorrection = Some False,
      m_rgbToRgbw = Some False, trace = [BindingsInit 2 (JObject [])]\<rparr>"
    by (simp add: init_ok option_value_def effective_options_def initial_state_def new_Buffer_def
        upt_rec)
  have p: "pipeline ?s [1, 2] = [1, 2]" by (simp add: s pipeline_def)
  have u: "\<not> m_isInitialized initial_state" by (simp add: initial_state_def)
  have i: "m_isInitialized ?s" by (simp add: s)
  have b: "m_outputBuffer ?s = Some [0, 0, 0, 0, 0, 0, 0, 0]
      \<and> length [0, 0, 0, 0, 0, 0, 0, 0 :: u8] = 4 * length [1, 2 :: u32]"
    by (simp add: s)
  have r: "\<not> m_isInitialized (reset ?s)" by (simp add: reset_fields)
  from initialization_guard [of initial_state "[1, 2]" 10 JUndefined] u
  have 1: "render initial_state [1, 2] =
       (Inl (Error ''render called before initialization.''), initial_state, [1, 2])
     \<and> setBrightness initial_state 10 JUndefined =
       (Some (Error ''setBrightness called before initialization.''), initial_state)"
    by blast
  from initialization_guard [of ?s "[1, 2]" 10 JUndefined] i b
  have 2: "fst (render ?s [1, 2]) = Inr (pipeline ?s [1, 2])
     \<and> fst (setBrightness ?s 10 JUndefined) = None"
    by blast
  from initialization_guard [of "reset ?s" "[1, 2]" 10 JUndefined] r
  have 3: "fst (render (reset ?s) [1, 2]) = Inl (Error ''render called before initialization.'')
     \<and> fst (setBrightness (reset ?s) 10 JUndefined)
       = Some (Error ''setBrightness called before initialization.'')"
    by blast
  from 1 2 3 show ?thesis by (simp only: p)
qed

text \<open>
  C3, at the input that breaks it. \<^verbatim>\<open>typeof null\<close> is \<^verbatim>\<open>'object'\<close>, so the test
  \<^verbatim>\<open>typeof options !== 'object'\<close> lets \<^verbatim>\<open>null\<close> through and \<^verbatim>\<open>options.gammaCorrection\<close> throws
  a \<^verbatim>\<open>TypeError\<close>: \<^verbatim>\<open>init(numLeds, null)\<close> raises, after it has set \<^verbatim>\<open>_isInitialized\<close> and
  allocated the buffer, and before it has set the two options or called the binding.
\<close>

theorem init_null_options:
  "typeof JNull = ''object''
   \<and> init SK6812W mem s numLeds JNull =
       (Some TypeError,
        s\<lparr>m_isInitialized := True, m_outputBuffer := Some (new_Buffer mem (4 * numLeds))\<rparr>)"
  by (simp add: init_def Let_def)

text \<open>
  C2, at two inputs that break it. With the stub binding \<^verbatim>\<open>STRIP_TYPES\<close> is \<^verbatim>\<open>{}\<close>, so
  \<^verbatim>\<open>STRIP_TYPES.SK6812W\<close> is \<^verbatim>\<open>undefined\<close>: after \<^verbatim>\<open>init(2, {rgbToRgbw: true})\<close>, where no strip
  type is configured, \<^verbatim>\<open>undefined === undefined\<close> holds and the render of two pixels
  \<open>0x00808080\<close> leaves the converted pixels \<open>0x80000000\<close> in the caller's array. With
  \<^verbatim>\<open>STRIP_TYPES.SK6812W\<close> the number 2: after \<^verbatim>\<open>init(2, {rgbToRgbw: true, strip_type: 2})\<close>, the
  call \<^verbatim>\<open>init(2, null)\<close> throws a \<^verbatim>\<open>TypeError\<close> before it assigns \<^verbatim>\<open>_rgbToRgbw\<close>, and the
  render after it still converts, though the configuration passed last enables nothing.
\<close>

theorem rgbw_gate_counterexample:
  "option_value (JObject [(''rgbToRgbw'', JBool True)]) ''strip_type'' = JUndefined
   \<and> fst (init JUndefined (\<lambda>_. 0) initial_state 2 (JObject [(''rgbToRgbw'', JBool True)]))
       = None
   \<and> snd (snd (render
         (snd (init JUndefined (\<lambda>_. 0) initial_state 2 (JObject [(''rgbToRgbw'', JBool True)])))
         [0x00808080, 0x00808080]))
       = [0x80000000, 0x80000000]
   \<and> fst (init (JNum 2) (\<lambda>_. 0)
         (snd (init (JNum 2) (\<lambda>_. 0) initial_state 2
            (JObject [(''rgbToRgbw'', JBool True), (''strip_type'', JNum 2)])))
         2 JNull)
       = Some TypeError
   \<and> snd (snd (render
         (snd (init (JNum 2) (\<lambda>_. 0)
            (snd (init (JNum 2) (\<lambda>_. 0) initial_state 2
               (JObject [(''rgbToRgbw'', JBool True), (''strip_type'', JNum 2)])))
            2 JNull))
         [0x00808080, 0x00808080]))
       = [0x80000000, 0x80000000]"
  by (simp add: init_ok init_null render_data pipeline_def option_value_def initial_state_def
      rgbToRgbw_eq rgbToRgbw_pixel_gray)

text \<open>
  C2, amended. For every \<^verbatim>\<open>options\<close> argument other than \<^verbatim>\<open>null\<close>, \<^verbatim>\<open>init\<close> returns and sets
  \<^verbatim>\<open>_rgbToRgbw\<close> to the conjunction of: the option \<^verbatim>\<open>rgbToRgbw\<close> is truthy, and the option
  \<^verbatim>\<open>strip_type\<close> is strictly equal to \<^verbatim>\<open>STRIP_TYPES.SK6812W\<close>. A render after it leaves in
  the caller's array the converted sequence when that conjunction holds, and the sequence
  without the conversion otherwise. So the conversion is not applied when the option
  \<^verbatim>\<open>strip_type\<close> differs from \<^verbatim>\<open>STRIP_TYPES.SK6812W\<close>, even if \<^verbatim>\<open>rgbToRgbw\<close> was requested, nor
  when \<^verbatim>\<open>rgbToRgbw\<close> is falsy; and where the binding defines \<^verbatim>\<open>STRIP_TYPES.SK6812W\<close> as a number,
  it is applied exactly when \<^verbatim>\<open>rgbToRgbw\<close> is truthy and \<^verbatim>\<open>strip_type\<close> is configured as that
  number. What a render does after an \<^verbatim>\<open>init\<close> that threw is not part of the statement.
\<close>

theorem rgbw_gate:
  assumes "options \<noteq> JNull"
  shows "(let requested = ToBoolean (option_value options ''rgbToRgbw'');
              strip_type = option_value options ''strip_type'';
              s' = snd (init SK6812W mem s numLeds options);
              remapped = (case m_indexMapping s of Some m \<Rightarrow> remap data m | None \<Rightarrow> data);
              out = snd (snd (render s' data))
          in fst (init SK6812W mem s numLeds options) = None
           \<and> m_rgbToRgbw s' = Some (requested \<and> strict_eq strip_type SK6812W)
           \<and> out = (if requested \<and> strict_eq strip_type SK6812W
                    then rgbToRgbw remapped else remapped)
           \<and> (strip_type \<noteq> SK6812W \<longrightarrow> out = remapped)
           \<and> (\<not> requested \<longrightarrow> out = remapped)
           \<and> (SK6812W = JNum k \<longrightarrow>
                out = (if requested \<and> strip_type = JNum k
                       then rgbToRgbw remapped else remapped)))"
proof -
  let ?s = "snd (init SK6812W mem s numLeds options)"
  have "snd (snd (render ?s data)) = pipeline ?s data"
    by (rule render_data) (rule init_initialized)
  then show ?thesis
    using assms
    by (auto simp add: init_ok pipeline_def Let_def strict_eq_num dest: strict_eq_imp_eq)
qed

theorem rgbw_gate_witness:
  "snd (snd (render (snd (init (JNum 1) (\<lambda>_. 0) initial_state 1
       (JObject [(''rgbToRgbw'', JBool True), (''strip_type'', JNum 2)]))) [0x00808080]))
     = [0x00808080]
   \<and> snd (snd (render (snd (init (JNum 1) (\<lambda>_. 0) initial_state 1
       (JObject [(''rgbToRgbw'', JBool True)]))) [0x00808080]))
     = [0x00808080]
   \<and> snd (snd (render (snd (init (JNum 1) (\<lambda>_. 0) initial_state 1
       (JObject [(''strip_type'', JNum 1)]))) [0x00808080]))
     = [0x00808080]
   \<and> snd (snd (render (snd (init (JNum 1) (\<lambda>_. 0) initial_state 1
       (JObject [(''rgbToRgbw'', JBool True), (''strip_type'', JNum 1)]))) [0x00808080]))
     = [0x80000000]"
  using rgbw_gate [of "JObject [(''rgbToRgbw'', JBool True), (''strip_type'', JNum 2)]"
      "JNum 1" "\<lambda>_. 0" initial_state 1 "[0x00808080]" 1]
    rgbw_gate [of "JObject [(''rgbToRgbw'', JBool True)]"
      "JNum 1" "\<lambda>_. 0" initial_state 1 "[0x00808080]" 1]
    rgbw_gate [of "JObject [(''strip_type'', JNum 1)]"
      "JNum 1" "\<lambda>_. 0" initial_state 1 "[0x00808080]" 1]
    rgbw_gate [of "JObject [(''rgbToRgbw'', JBool True), (''strip_type'', JNum 1)]"
      "JNum 1" "\<lambda>_. 0" initial_state 1 "[0x00808080]" 1]
  by (simp add: Let_def option_value_def initial_state_def rgbToRgbw_eq rgbToRgbw_pixel_gray)

text \<open>
  C1, at an input that breaks it. After \<^verbatim>\<open>init(1, {gammaCorrection: true})\<close>, the render of
  the pixel \<open>0x00808080\<close> returns that pixel and hands the binding its bytes 80 80 80 00,
  while \<^verbatim>\<open>gammaCorrect\<close> of the pixel is \<open>0x00373737\<close>: the array that \<^verbatim>\<open>data.map\<close> builds
  is dropped. In every state and for every sequence, what \<^verbatim>\<open>render\<close> returns or throws,
  the caller's array, the output buffer and the outside effects are the same whatever
  \<^verbatim>\<open>_useGammaCorrection\<close> holds.
\<close>

theorem render_drops_gamma:
  "snd (init JUndefined (\<lambda>_. 0) initial_state 1 (JObject [(''gammaCorrection'', JBool True)]))
     = \<lparr>m_isInitialized = True, m_indexMapping = None, m_outputBuffer = Some [0, 0, 0, 0],
        m_useGammaCorrection = Some True, m_rgbToRgbw = Some False,
        trace = [BindingsInit 1 (JObject [(''gammaCorrection'', JBool True)])]\<rparr>
   \<and> render
       \<lparr>m_isInitialized = True, m_indexMapping = None, m_outputBuffer = Some [0, 0, 0, 0],
        m_useGammaCorrection = Some True, m_rgbToRgbw = Some False,
        trace = [BindingsInit 1 (JObject [(''gammaCorrection'', JBool True)])]\<rparr>
       [0x00808080]
     = (Inr [0x00808080],
        \<lparr>m_isInitialized = True, m_indexMapping = None,
         m_outputBuffer = Some [0x80, 0x80, 0x80, 0],
         m_useGammaCorrection = Some True, m_rgbToRgbw = Some False,
         trace = [BindingsInit 1 (JObject [(''gammaCorrection'', JBool True)]),
                  Emit ''beforeRender'' [0x00808080],
                  BindingsRender (Some [0x80, 0x80, 0x80, 0]),
                  Emit ''render'' [0x00808080]]\<rparr>,
        [0x00808080])
   \<and> gammaCorrect 0x00808080 = 0x00373737
   \<and> fst (render (s\<lparr>m_useGammaCorrection := g\<rparr>) data) = fst (render s data)
   \<and> snd (snd (render (s\<lparr>m_useGammaCorrection := g\<rparr>) data)) = snd (snd (render s data))
   \<and> m_outputBuffer (fst (snd (render (s\<lparr>m_useGammaCorrection := g\<rparr>) data)))
       = m_outputBuffer (fst (snd (render s data)))
   \<and> trace (fst (snd (render (s\<lparr>m_useGammaCorrection := g\<rparr>) data)))
       = trace (fst (snd (render s data)))"
proof (intro conjI)
  show "gammaCorrect 0x00808080 = 0x00373737"
    by (simp add: gammaCorrect_def gammaTable_nth gamma_values_def)
qed (simp_all add: render_gamma_flag,
    simp_all add: render_def Let_def emit_def encode_def writeUInt32LE_def init_ok
    option_value_def effective_options_def initial_state_def new_Buffer_def upt_rec)

text \<open>
  C4. For every pixel word, with \<open>R\<close>, \<open>G\<close>, \<open>B\<close> its three low bytes: when all three are 0
  the conversion leaves the word as it is; otherwise, with \<open>w\<close> the value of the whiteness
  formula (computed in double precision as the code computes it) truncated towards zero,
  \<open>w\<close> lies between 0 and the least of \<open>R\<close>, \<open>G\<close>, \<open>B\<close>, the most significant byte of the
  new word is \<open>w\<close> and its three low bytes are \<open>R - w\<close>, \<open>G - w\<close>, \<open>B - w\<close>. The loop does
  this to every pixel of the sequence. The gray pixel \<open>R = G = B = 128\<close> becomes white 128
  with no colour left.
\<close>

theorem rgbToRgbw_conversion:
  "(let R = byte_of 2 p; G = byte_of 1 p; B = byte_of 0 p;
        w = trunc (whiteness_value R G B); p' = rgbToRgbw_pixel p
    in if max R (max G B) = 0 then p' = p
       else 0 \<le> w \<and> w \<le> min R (min G B)
          \<and> byte_of 3 p' = w \<and> byte_of 2 p' = R - w
          \<and> byte_of 1 p' = G - w \<and> byte_of 0 p' = B - w)
   \<and> length (rgbToRgbw data) = length data
   \<and> (\<forall>i<length data. rgbToRgbw data ! i = rgbToRgbw_pixel (data ! i))
   \<and> rgbToRgbw_pixel 0x00808080 = 0x80000000"
proof (intro conjI)
  define R where "R = byte_of 2 p"
  define G where "G = byte_of 1 p"
  define B where "B = byte_of 0 p"
  define w where "w = trunc (whiteness_value R G B)"
  have rng: "0 \<le> R" "R \<le> 255" "0 \<le> G" "G \<le> 255" "0 \<le> B" "B \<le> 255"
    using byte_of_range [of 2 p] byte_of_range [of 1 p] byte_of_range [of 0 p]
    unfolding R_def G_def B_def by blast+
  have unfold: "rgbToRgbw_pixel p =
      (if max R (max G B) = 0 then p
       else push_bit 24 (word_of_int (ToInt32 (whiteness_value R G B)))
            OR push_bit 16 (word_of_int (R - ToInt32 (whiteness_value R G B)))
            OR push_bit 8 (word_of_int (G - ToInt32 (whiteness_value R G B)))
            OR word_of_int (B - ToInt32 (whiteness_value R G B)))"
    by (simp only: rgbToRgbw_pixel_bytes Let_def R_def G_def B_def)
  have "if max R (max G B) = 0 then rgbToRgbw_pixel p = p
       else 0 \<le> w \<and> w \<le> min R (min G B)
          \<and> byte_of 3 (rgbToRgbw_pixel p) = w \<and> byte_of 2 (rgbToRgbw_pixel p) = R - w
          \<and> byte_of 1 (rgbToRgbw_pixel p) = G - w \<and> byte_of 0 (rgbToRgbw_pixel p) = B - w"
  proof (cases "max R (max G B) = 0")
    case True
    then show ?thesis by (simp add: unfold)
  next
    case False
    with rng have pos: "0 < max R (max G B)" by linarith
    from whiteness_range [OF rng pos]
    have w: "0 \<le> w" "w \<le> min R (min G B)" "ToInt32 (whiteness_value R G B) = w"
      unfolding w_def by blast+
    then have le: "w \<le> R" "w \<le> G" "w \<le> B" by simp_all
    have p': "rgbToRgbw_pixel p =
        push_bit 24 (word_of_int w) OR push_bit 16 (word_of_int (R - w))
        OR push_bit 8 (word_of_int (G - w)) OR word_of_int (B - w)"
      using False by (simp only: unfold if_False w(3))
    from packed_bytes [OF w(1) le rng(2) rng(4) rng(6)] w(1,2) False
    show ?thesis by (simp only: p' if_False)
  qed
  then show "let R = byte_of 2 p; G = byte_of 1 p; B = byte_of 0 p;
        w = trunc (whiteness_value R G B); p' = rgbToRgbw_pixel p
    in if max R (max G B) = 0 then p' = p
       else 0 \<le> w \<and> w \<le> min R (min G B)
          \<and> byte_of 3 p' = w \<and> byte_of 2 p' = R - w
          \<and> byte_of 1 p' = G - w \<and> byte_of 0 p' = B - w"
    by (simp only: Let_def w_def R_def G_def B_def)
next
  show "length (rgbToRgbw data) = length data" by (simp add: rgbToRgbw_eq)
next
  show "\<forall>i<length data. rgbToRgbw data ! i = rgbToRgbw_pixel (data ! i)"
    by (simp add: rgbToRgbw_eq)
next
  show "rgbToRgbw_pixel 0x00808080 = 0x80000000" by (rule rgbToRgbw_pixel_gray)
qed

theorem rgbToRgbw_conversion_witness:
  "byte_of 2 0x00070303 = 7 \<and> byte_of 1 0x00070303 = 3 \<and> byte_of 0 0x00070303 = 3
   \<and> trunc (whiteness_value 7 3 3) = 2
   \<and> byte_of 3 (rgbToRgbw_pixel 0x00070303) = 2
   \<and> byte_of 2 (rgbToRgbw_pixel 0x00070303) = 5
   \<and> byte_of 1 (rgbToRgbw_pixel 0x00070303) = 1
   \<and> byte_of 0 (rgbToRgbw_pixel 0x00070303) = 1
   \<and> rgbToRgbw_pixel 0xFF000000 = 0xFF000000
   \<and> rgbToRgbw [0x00070303, 0] ! 0 = rgbToRgbw_pixel 0x00070303"
proof -
  have b: "byte_of 2 0x00070303 = 7" "byte_of 1 0x00070303 = 3" "byte_of 0 0x00070303 = 3"
    "byte_of 2 0xFF000000 = 0" "byte_of 1 0xFF000000 = 0" "byte_of 0 0xFF000000 = 0"
    by (simp_all add: byte_of_def)
  have t: "trunc (whiteness_value 7 3 3) = 2"
    by (simp add: whiteness_733 trunc_def)
  have 1: "byte_of 3 (rgbToRgbw_pixel 0x00070303) = 2
      \<and> byte_of 2 (rgbToRgbw_pixel 0x00070303) = 5
      \<and> byte_of 1 (rgbToRgbw_pixel 0x00070303) = 1
      \<and> byte_of 0 (rgbToRgbw_pixel 0x00070303) = 1
      \<and> rgbToRgbw [0x00070303, 0] ! 0 = rgbToRgbw_pixel 0x00070303"
    using rgbToRgbw_conversion [of "0x00070303" "[0x00070303, 0]"]
    by (simp only: Let_def b t) simp
  have 2: "rgbToRgbw_pixel 0xFF000000 = 0xFF000000"
    using rgbToRgbw_conversion [of "0xFF000000" "[]"]
    by (simp only: Let_def b)
  from b t 1 2 show ?thesis by (simp only:)
qed

section \<open>Further properties\<close>

text \<open>
  X1. For every \<^verbatim>\<open>options\<close> argument other than \<^verbatim>\<open>null\<close>, \<^verbatim>\<open>init\<close> returns: the state is
  initialised, the buffer has \<open>4 * numLeds\<close> bytes, the two options are the truthiness of
  the properties of \<^verbatim>\<open>options\<close> (false where \<^verbatim>\<open>options\<close> is no object or lacks them), and
  the binding receives \<^verbatim>\<open>numLeds\<close> and the object (\<^verbatim>\<open>{}\<close> where \<^verbatim>\<open>options\<close> was no object).
\<close>

theorem init_defaults:
  assumes "options \<noteq> JNull"
  shows "init SK6812W mem s numLeds options =
       (None,
        s\<lparr>m_isInitialized := True,
          m_outputBuffer := Some (new_Buffer mem (4 * numLeds)),
          m_useGammaCorrection := Some (ToBoolean (option_value options ''gammaCorrection'')),
          m_rgbToRgbw := Some (ToBoolean (option_value options ''rgbToRgbw'')
                               \<and> strict_eq (option_value options ''strip_type'') SK6812W),
          trace := trace s @ [BindingsInit numLeds (effective_options options)]\<rparr>)
     \<and> length (new_Buffer mem (4 * numLeds)) = 4 * numLeds
     \<and> ToBoolean (option_value (JObject []) name) = False
     \<and> (typeof options \<noteq> ''object'' \<longrightarrow>
          option_value options name = JUndefined \<and> effective_options options = JObject [])"
proof -
  have "option_value options name = JUndefined \<and> effective_options options = JObject []"
    if "typeof options \<noteq> ''object''"
    using that by (cases options) (simp_all add: option_value_def effective_options_def)
  then show ?thesis
    using assms by (simp add: init_ok new_Buffer_def) (simp add: option_value_def)
qed

theorem init_defaults_witness:
  "init (JNum 1) (\<lambda>_. 0) initial_state 2 (JStr ''fast'') =
     (None,
      \<lparr>m_isInitialized = True, m_indexMapping = None,
       m_outputBuffer = Some [0, 0, 0, 0, 0, 0, 0, 0],
       m_useGammaCorrection = Some False, m_rgbToRgbw = Some False,
       trace = [BindingsInit 2 (JObject [])]\<rparr>)
   \<and> init (JNum 1) (\<lambda>_. 0) initial_state 2 (JObject [(''dma'', JNum 5)]) =
     (None,
      \<lparr>m_isInitialized = True, m_indexMapping = None,
       m_outputBuffer = Some [0, 0, 0, 0, 0, 0, 0, 0],
       m_useGammaCorrection = Some False, m_rgbToRgbw = Some False,
       trace = [BindingsInit 2 (JObject [(''dma'', JNum 5)])]\<rparr>)"
  using init_defaults [of "JStr ''fast''" "JNum 1" "\<lambda>_. 0" initial_state 2]
    init_defaults [of "JObject [(''dma'', JNum 5)]" "JNum 1" "\<lambda>_. 0" initial_state 2]
  by (simp add: option_value_def effective_options_def initial_state_def new_Buffer_def upt_rec)

text \<open>
  X2. \<^verbatim>\<open>gammaCorrect\<close> maps each of the four bytes of a colour word through the gamma table
  and leaves it at its position.
\<close>

theorem gammaCorrect_channels:
  "byte_of 3 (gammaCorrect c) = uint (gammaTable ! nat (byte_of 3 c))
   \<and> byte_of 2 (gammaCorrect c) = uint (gammaTable ! nat (byte_of 2 c))
   \<and> byte_of 1 (gammaCorrect c) = uint (gammaTable ! nat (byte_of 1 c))
   \<and> byte_of 0 (gammaCorrect c) = uint (gammaTable ! nat (byte_of 0 c))"
  by (rule gammaCorrect_bytes)

text \<open>
  X3. For channels that are not all 0, the whiteness that the conversion computes in double
  precision is the least of \<open>R\<close>, \<open>G\<close>, \<open>B\<close> or one less, and never negative. (In exact
  arithmetic the formula is that least channel.)
\<close>

theorem whiteness_min_or_less:
  assumes "0 \<le> r" "r \<le> 255" "0 \<le> g" "g \<le> 255" "0 \<le> b" "b \<le> 255"
    and "0 < max r (max g b)"
  shows "0 \<le> trunc (whiteness_value r g b)
     \<and> (trunc (whiteness_value r g b) = min r (min g b)
        \<or> trunc (whiteness_value r g b) = min r (min g b) - 1)"
  using whiteness_range [OF assms] by linarith

theorem whiteness_min_or_less_witness:
  "trunc (whiteness_value 7 3 3) = min 7 (min 3 3) - 1
   \<and> trunc (whiteness_value 128 128 128) = min 128 (min 128 128)"
proof -
  have a: "trunc (whiteness_value 7 3 3) = 2" by (simp add: whiteness_733 trunc_def)
  have b: "trunc (whiteness_value 128 128 128) = 128" by (simp add: whiteness_gray trunc_def)
  have h: "(0::int) \<le> 7" "(7::int) \<le> 255" "(0::int) \<le> 3" "(3::int) \<le> 255"
    "0 < max (7::int) (max 3 3)" by simp_all
  from whiteness_min_or_less [OF h(1,2,3,4,3,4,5)] a b show ?thesis by simp
qed

text \<open>
  X4. Every entry of the gamma table is the same when the value under the floor is off by
  less than \<open>1 / 1024\<close>.
\<close>

theorem gamma_table_margin:
  assumes "i < 256" and "\<bar>e\<bar> < 1 / 1024"
  shows "word_of_int \<lfloor>gamma_value i + e\<rfloor> = gammaTable ! i"
  using gamma_margin [OF assms] assms(1) by (simp add: gammaTable_def)

theorem gamma_table_margin_witness:
  "word_of_int \<lfloor>gamma_value 128 + 1 / 2000\<rfloor> = (55 :: u8)
   \<and> word_of_int \<lfloor>gamma_value 128 - 1 / 2000\<rfloor> = (55 :: u8)"
proof -
  have v: "gammaTable ! 128 = 55" by (simp add: gammaTable_nth gamma_values_def)
  have i: "(128::nat) < 256" by simp
  have e: "\<bar>1 / 2000 :: real\<bar> < 1 / 1024" "\<bar>- (1 / 2000) :: real\<bar> < 1 / 1024" by simp_all
  from gamma_table_margin [OF i e(1)] gamma_table_margin [OF i e(2)] v show ?thesis by simp
qed

end
